theory Spec2Isabelle
  imports Complex_Main
begin

section \<open>Data model\<close>

text \<open>
  The program is \<^verbatim>\<open>src/library_functions.py\<close>: a pandas pipeline that annotates a daily price
  series, accrues monthly capital, plans the buys of three strategies and evaluates the plan.

  A pandas DataFrame is modelled as the list of its rows in positional order; after
  \<^verbatim>\<open>reset_index\<close> and \<^verbatim>\<open>merge\<close> the index is \<open>0, 1, ..., n - 1\<close>, so a label is a position.
  Every column the pipeline reads or writes is a field of the row. A stage overwrites the
  columns it produces and ignores whatever the field held before.

  Floating-point numbers are idealised: a finite float is a real number, with exact
  arithmetic, and there is one zero, the positive one. The prices \<open>Open\<close>, \<open>High\<close> and
  \<open>Adj Close\<close> are finite numbers. A cell that the pipeline computes from finite numbers by
  sums, differences, products and minima is a \<open>real option\<close>: \<open>None\<close> is pandas' null (NaN),
  \<open>Some x\<close> a finite number. A cell that comes from a division (\<open>percent_drop\<close>,
  \<open>share_amount\<close>, the results of the evaluator) can also be an infinity: it is an \<open>xfloat\<close>.
  Python raises; the model returns \<open>Inl\<close> of the exception.
\<close>

datatype py_error = AssertionError | AttributeError | IndexError | KeyError | ValueError

datatype xfloat = Fin real | PInf | NInf | NaN

text \<open>A \<^verbatim>\<open>datetime\<close> at midnight: (year, month, day), ordered lexicographically.\<close>

type_synonym datetime = "int \<times> int \<times> int"

record row =
  Date :: datetime
  year :: int
  month :: int
  Open :: real
  High :: real
  Adj_Close :: real
  moving_max :: "real option"
  percent_drop :: xfloat
  capital :: "real option"
  buy :: bool
  investment_percent :: "real option"
  investment_amount :: "real option"
  cash :: "real option"
  share_amount :: xfloat

type_synonym frame = "row list"

text \<open>
  The column \<open>moving_max\<close> is not in the frame of the data reader: \<^verbatim>\<open>compute_moving_max\<close>
  creates it (line 80), and \<^verbatim>\<open>compute_percent_drop\<close> reads it with \<^verbatim>\<open>df.moving_max\<close>, which
  raises AttributeError on a frame without the column. A frame as the caller passes it to
  the entry point is therefore its rows together with the fact whether the column exists;
  without the column the field \<open>moving_max\<close> of the rows has no meaning. The result of
  \<open>compute_moving_max df w\<close> has the column:
  \<open>\<lparr>has_moving_max = True, frame_rows = compute_moving_max df w\<rparr>\<close>. Every other column
  that a function reads is taken to exist.
\<close>

record dataframe =
  has_moving_max :: bool
  frame_rows :: frame

text \<open>
  A Python number that is either an \<^verbatim>\<open>int\<close> or a \<^verbatim>\<open>float\<close>: the planner tests
  \<^verbatim>\<open>type(x) == int\<close> on two of its parameters.
\<close>

datatype pynum = PyInt int | PyFloat real

fun num_val :: "pynum \<Rightarrow> real" where
  "num_val (PyInt k) = real_of_int k"
| "num_val (PyFloat x) = x"

fun is_int :: "pynum \<Rightarrow> bool" where
  "is_int (PyInt k) = True"
| "is_int (PyFloat x) = False"

fun int_of :: "pynum \<Rightarrow> int" where
  "int_of (PyInt k) = k"
| "int_of (PyFloat x) = \<lfloor>x\<rfloor>"

subsection \<open>Arithmetic on nullable cells\<close>

text \<open>NaN propagates through \<open>-\<close> and \<open>*\<close> on cells that are finite or null.\<close>

fun fsub :: "real option \<Rightarrow> real option \<Rightarrow> real option" where
  "fsub (Some a) (Some b) = Some (a - b)"
| "fsub _ _ = None"

fun fmul :: "real option \<Rightarrow> real option \<Rightarrow> real option" where
  "fmul (Some a) (Some b) = Some (a * b)"
| "fmul _ _ = None"

subsection \<open>Arithmetic with infinities\<close>

text \<open>
  The IEEE rules: NaN propagates; \<open>inf - inf\<close>, \<open>0 * inf\<close>, \<open>0 / 0\<close> and \<open>inf / inf\<close> are NaN; a
  nonzero number divided by zero is the infinity of its sign (numpy and pandas do not raise
  on a float division by zero); a finite number divided by an infinity is 0.
\<close>

fun as_float :: "real option \<Rightarrow> xfloat" where
  "as_float (Some a) = Fin a"
| "as_float None = NaN"

fun xneg :: "xfloat \<Rightarrow> xfloat" where
  "xneg (Fin a) = Fin (- a)"
| "xneg PInf = NInf"
| "xneg NInf = PInf"
| "xneg NaN = NaN"

fun xadd :: "xfloat \<Rightarrow> xfloat \<Rightarrow> xfloat" where
  "xadd (Fin a) (Fin b) = Fin (a + b)"
| "xadd (Fin a) PInf = PInf"
| "xadd (Fin a) NInf = NInf"
| "xadd PInf (Fin b) = PInf"
| "xadd PInf PInf = PInf"
| "xadd PInf NInf = NaN"
| "xadd NInf (Fin b) = NInf"
| "xadd NInf PInf = NaN"
| "xadd NInf NInf = NInf"
| "xadd NaN y = NaN"
| "xadd (Fin a) NaN = NaN"
| "xadd PInf NaN = NaN"
| "xadd NInf NaN = NaN"

definition xsub :: "xfloat \<Rightarrow> xfloat \<Rightarrow> xfloat" where
  "xsub x y = xadd x (xneg y)"

fun xmul :: "xfloat \<Rightarrow> xfloat \<Rightarrow> xfloat" where
  "xmul (Fin a) (Fin b) = Fin (a * b)"
| "xmul (Fin a) PInf = (if 0 < a then PInf else if a < 0 then NInf else NaN)"
| "xmul (Fin a) NInf = (if 0 < a then NInf else if a < 0 then PInf else NaN)"
| "xmul PInf (Fin b) = (if 0 < b then PInf else if b < 0 then NInf else NaN)"
| "xmul PInf PInf = PInf"
| "xmul PInf NInf = NInf"
| "xmul NInf (Fin b) = (if 0 < b then NInf else if b < 0 then PInf else NaN)"
| "xmul NInf PInf = NInf"
| "xmul NInf NInf = PInf"
| "xmul NaN y = NaN"
| "xmul (Fin a) NaN = NaN"
| "xmul PInf NaN = NaN"
| "xmul NInf NaN = NaN"

fun xdiv :: "xfloat \<Rightarrow> xfloat \<Rightarrow> xfloat" where
  "xdiv (Fin a) (Fin b) =
     (if b \<noteq> 0 then Fin (a / b) else if 0 < a then PInf else if a < 0 then NInf else NaN)"
| "xdiv (Fin a) PInf = Fin 0"
| "xdiv (Fin a) NInf = Fin 0"
| "xdiv PInf (Fin b) = (if 0 \<le> b then PInf else NInf)"
| "xdiv PInf PInf = NaN"
| "xdiv PInf NInf = NaN"
| "xdiv NInf (Fin b) = (if 0 \<le> b then NInf else PInf)"
| "xdiv NInf PInf = NaN"
| "xdiv NInf NInf = NaN"
| "xdiv NaN y = NaN"
| "xdiv (Fin a) NaN = NaN"
| "xdiv PInf NaN = NaN"
| "xdiv NInf NaN = NaN"

text \<open>\<^verbatim>\<open>series >= t\<close> for a finite \<open>t\<close>: a comparison with NaN is false.\<close>

fun fge :: "xfloat \<Rightarrow> real \<Rightarrow> bool" where
  "fge (Fin a) t = (t \<le> a)"
| "fge PInf t = True"
| "fge NInf t = False"
| "fge NaN t = False"

text \<open>
  \<^verbatim>\<open>np.minimum(a, x)\<close> for a finite \<open>a\<close>, as it is stored in the column \<open>investment_percent\<close>,
  whose cells are finite or null. The minimum with \<open>+inf\<close> is \<open>a\<close>, the minimum with NaN is NaN.
  The minimum with \<open>-inf\<close> is \<open>-inf\<close> in numpy and null here: the only call (line 198) has
  \<open>x = percent_drop * drop_multiplier\<close> on a row with \<open>percent_drop \<ge> perc_drop_threshold\<close> and
  with a multiplier that passed the check of line 179, so \<open>x\<close> is finite or \<open>+inf\<close> there
  and the result is finite (lemma \<open>fminimum_trigger\<close>).
\<close>

fun fminimum :: "real \<Rightarrow> xfloat \<Rightarrow> real option" where
  "fminimum a (Fin b) = Some (min a b)"
| "fminimum a PInf = Some a"
| "fminimum a NInf = None"
| "fminimum a NaN = None"

text \<open>\<^verbatim>\<open>fillna(0)\<close> on one cell.\<close>

fun fillna0 :: "real option \<Rightarrow> real" where
  "fillna0 (Some a) = a"
| "fillna0 None = 0"

text \<open>\<^verbatim>\<open>Series.cumsum()\<close>: the running sum skips a null cell and leaves it null.\<close>

fun cumsum :: "real \<Rightarrow> real option list \<Rightarrow> real option list" where
  "cumsum acc [] = []"
| "cumsum acc (None # xs) = None # cumsum acc xs"
| "cumsum acc (Some x # xs) = Some (acc + x) # cumsum (acc + x) xs"

text \<open>
  The same on cells that can be infinite. pandas replaces the null cells by 0, takes
  \<^verbatim>\<open>np.cumsum\<close> and writes null back where the input was null: a NaN that the running sum
  itself produces (\<open>inf - inf\<close>) stays in the sum.
\<close>

fun xcumsum :: "xfloat \<Rightarrow> xfloat list \<Rightarrow> xfloat list" where
  "xcumsum acc [] = []"
| "xcumsum acc (NaN # xs) = NaN # xcumsum acc xs"
| "xcumsum acc (Fin x # xs) = xadd acc (Fin x) # xcumsum (xadd acc (Fin x)) xs"
| "xcumsum acc (PInf # xs) = xadd acc PInf # xcumsum (xadd acc PInf) xs"
| "xcumsum acc (NInf # xs) = xadd acc NInf # xcumsum (xadd acc NInf) xs"

text \<open>\<^verbatim>\<open>.sum()\<close>: the sum of the cells that are not null; 0 when there is none.\<close>

fun xsum :: "xfloat list \<Rightarrow> xfloat" where
  "xsum [] = Fin 0"
| "xsum (NaN # xs) = xsum xs"
| "xsum (Fin x # xs) = xadd (Fin x) (xsum xs)"
| "xsum (PInf # xs) = xadd PInf (xsum xs)"
| "xsum (NInf # xs) = xadd NInf (xsum xs)"

text \<open>\<^verbatim>\<open>fillna(method='ffill')\<close>: a null cell takes the last non-null value before it.\<close>

fun ffill :: "real option \<Rightarrow> real option list \<Rightarrow> real option list" where
  "ffill prev [] = []"
| "ffill prev (None # xs) = prev # ffill prev xs"
| "ffill prev (Some x # xs) = Some x # ffill (Some x) xs"

subsection \<open>Grouping by month and the left merge on Date\<close>

text \<open>
  \<^verbatim>\<open>df.groupby(['year', 'month']).Date.first()\<close>: the Date of the first row of every
  (year, month) group. pandas orders the groups by key; the merge below does not depend on
  that order, so the dates are listed in order of appearance. \<open>seen\<close> holds the keys of the
  rows already passed.
\<close>

fun group_first_dates :: "(int \<times> int) list \<Rightarrow> frame \<Rightarrow> datetime list" where
  "group_first_dates seen [] = []"
| "group_first_dates seen (r # rs) =
     (if (year r, month r) \<in> set seen then [] else [Date r])
       @ group_first_dates ((year r, month r) # seen) rs"

text \<open>
  \<^verbatim>\<open>df.merge(right, how='left', on='Date')\<close> where every column of \<open>right\<close> besides Date is
  constant: each left row, in order, is paired once with every right row of the same Date
  (flag \<open>True\<close>: the right columns are present), or once with nulls when there is none
  (flag \<open>False\<close>).
\<close>

definition merge_left :: "frame \<Rightarrow> datetime list \<Rightarrow> (row \<times> bool) list" where
  "merge_left df right =
     concat (map (\<lambda>r. case filter (\<lambda>d. d = Date r) right of
                          [] \<Rightarrow> [(r, False)]
                        | ms \<Rightarrow> map (\<lambda>_. (r, True)) ms) df)"

section \<open>CapitalAccrual\<close>

definition assign_available_capital :: "frame \<Rightarrow> real \<Rightarrow> frame" where
  "assign_available_capital df monthly_savings =
     (let m = merge_left df (group_first_dates [] df);
          credit = map (\<lambda>(r, hit). if hit then Some monthly_savings else None) m;
          cap = ffill None (cumsum 0 credit)
      in map (\<lambda>((r, hit), c). r\<lparr>capital := c\<rparr>) (zip m cap))"

section \<open>InvestmentPlanner\<close>

subsection \<open>Monthly leg\<close>

text \<open>
  \<^verbatim>\<open>df[df.capital.notnull()].capital.iloc[0]\<close> raises IndexError when no row has a capital.
\<close>

definition first_capital :: "frame \<Rightarrow> py_error + real" where
  "first_capital df =
     (case filter (\<lambda>c. c \<noteq> None) (map capital df) of
        [] \<Rightarrow> Inl IndexError
      | c # _ \<Rightarrow> Inr (fillna0 c))"

definition create_monthly_investment_plan :: "frame \<Rightarrow> real \<Rightarrow> py_error + frame" where
  "create_monthly_investment_plan df perc_monthly_invest =
     (if \<not> (perc_monthly_invest \<ge> 0 \<and> perc_monthly_invest \<le> 1) then Inl AssertionError
      else case first_capital df of
          Inl e \<Rightarrow> Inl e
        | Inr c0 \<Rightarrow>
            let m = merge_left df (group_first_dates [] df);
                df1 = map (\<lambda>(r, hit).
                        if hit
                        then r\<lparr>buy := perc_monthly_invest > 0,
                               investment_percent := Some perc_monthly_invest,
                               investment_amount := Some (c0 * perc_monthly_invest)\<rparr>
                        else r\<lparr>buy := False,
                               investment_percent := Some 0,
                               investment_amount := Some 0\<rparr>) m;
                cs = cumsum 0 (map investment_amount df1)
            in Inr (map (\<lambda>(r, c). r\<lparr>cash := fsub (capital r) c\<rparr>) (zip df1 cs)))"

subsection \<open>Drawdown leg\<close>

text \<open>
  The rows \<^verbatim>\<open>df[df.percent_drop >= perc_drop_threshold]\<close>, as their positions: the snapshot
  the loop iterates over.
\<close>

definition triggers :: "real \<Rightarrow> frame \<Rightarrow> nat list" where
  "triggers perc_drop_threshold df =
     filter (\<lambda>i. fge (percent_drop (df ! i)) perc_drop_threshold) [0..<length df]"

text \<open>\<^verbatim>\<open>df.loc[k:, 'cash'] = df.loc[k:].cash - a\<close>: the rows from position \<open>k\<close> on.\<close>

definition sub_cash_from :: "nat \<Rightarrow> real option \<Rightarrow> frame \<Rightarrow> frame" where
  "sub_cash_from k a df = take k df @ map (\<lambda>r. r\<lparr>cash := fsub (cash r) a\<rparr>) (drop k df)"

text \<open>
  One pass of the loop body for the trigger row \<open>row_idx\<close>, on the state (frame, last_buy).
  \<^verbatim>\<open>df.loc[next_row_idx]\<close> raises KeyError when the label is not in the index.
\<close>

definition drop_step ::
  "string \<Rightarrow> int \<Rightarrow> int \<Rightarrow> nat \<Rightarrow> frame \<times> int \<Rightarrow> nat \<Rightarrow> py_error + frame \<times> int" where
  "drop_step mode waiting_days drop_multiplier last_idx st row_idx =
     (let df = fst st; last_buy = snd st in
      if int row_idx - last_buy \<ge> waiting_days \<and> row_idx \<noteq> last_idx then
        let next_row_idx = row_idx + 1 in
        if \<not> next_row_idx < length df then Inl KeyError
        else if mode = ''hybrid_strategy'' \<and> buy (df ! next_row_idx) = True then Inr (df, last_buy)
        else
          let pct = fminimum 1 (xmul (percent_drop (df ! row_idx)) (Fin (real_of_int drop_multiplier)));
              amt = fmul (cash (df ! next_row_idx)) pct;
              df1 = df[next_row_idx := (df ! next_row_idx)
                        \<lparr>buy := True, investment_percent := pct, investment_amount := amt\<rparr>]
          in Inr (sub_cash_from next_row_idx amt df1, int row_idx)
      else Inr (df, last_buy))"

fun drop_loop ::
  "string \<Rightarrow> int \<Rightarrow> int \<Rightarrow> nat \<Rightarrow> nat list \<Rightarrow> frame \<times> int \<Rightarrow> py_error + frame \<times> int" where
  "drop_loop mode waiting_days drop_multiplier last_idx [] st = Inr st"
| "drop_loop mode waiting_days drop_multiplier last_idx (i # is) st =
     (case drop_step mode waiting_days drop_multiplier last_idx st i of
        Inl e \<Rightarrow> Inl e
      | Inr st' \<Rightarrow> drop_loop mode waiting_days drop_multiplier last_idx is st')"

definition create_drop_threshold_investment_plan ::
  "frame \<Rightarrow> string \<Rightarrow> real \<Rightarrow> pynum \<Rightarrow> pynum \<Rightarrow> py_error + frame" where
  "create_drop_threshold_investment_plan df mode perc_drop_threshold waiting_days drop_multiplier =
     (if \<not> (perc_drop_threshold \<ge> 0 \<and> perc_drop_threshold \<le> 1) then Inl AssertionError
      else if \<not> (num_val waiting_days \<ge> 1 \<and> is_int waiting_days) then Inl AssertionError
      else if \<not> (num_val drop_multiplier \<ge> 1 \<and> is_int drop_multiplier) then Inl AssertionError
      else if df = [] then Inl IndexError
      else
        case drop_loop mode (int_of waiting_days) (int_of drop_multiplier) (length df - 1)
               (triggers perc_drop_threshold df) (df, - int_of waiting_days) of
          Inl e \<Rightarrow> Inl e
        | Inr st \<Rightarrow> Inr (fst st))"

subsection \<open>The planner\<close>

definition modes :: "string list" where
  "modes = [''monthly_invest_strategy'', ''markettiming_strategy'', ''hybrid_strategy'']"

definition effective_percent :: "string \<Rightarrow> real \<Rightarrow> real" where
  "effective_percent mode perc_monthly_invest =
     (if mode = ''monthly_invest_strategy'' then 1
      else if mode = ''markettiming_strategy'' then 0
      else perc_monthly_invest)"

definition finalize :: "frame \<Rightarrow> frame" where
  "finalize df =
     map (\<lambda>r. r\<lparr>investment_percent := Some (fillna0 (investment_percent r)),
                investment_amount := Some (fillna0 (investment_amount r)),
                share_amount := xdiv (Fin (fillna0 (investment_amount r))) (Fin (Open r))\<rparr>) df"

definition determine_buy_and_investment_amount ::
  "frame \<Rightarrow> string \<Rightarrow> real \<Rightarrow> real \<Rightarrow> pynum \<Rightarrow> pynum \<Rightarrow> py_error + frame" where
  "determine_buy_and_investment_amount df mode perc_monthly_invest perc_drop_threshold
       waiting_days drop_multiplier =
     (if mode \<notin> set modes then Inl AssertionError
      else
        let perc = effective_percent mode perc_monthly_invest;
            res = (if perc = 1 then create_monthly_investment_plan df perc
                   else case create_monthly_investment_plan df perc of
                          Inl e \<Rightarrow> Inl e
                        | Inr df1 \<Rightarrow> create_drop_threshold_investment_plan df1 mode
                                      perc_drop_threshold waiting_days drop_multiplier)
        in case res of Inl e \<Rightarrow> Inl e | Inr df2 \<Rightarrow> Inr (finalize df2))"

section \<open>Horizon selector\<close>

text \<open>
  \<^verbatim>\<open>dt + relativedelta(years=n)\<close> as dateutil defines it: the year is shifted by \<open>n\<close>, the day
  is cut to the length of the month in the new year (29 February becomes 28 February), and
  \<^verbatim>\<open>datetime.replace\<close> raises ValueError when the new year is outside 1..9999.
\<close>

definition isleap :: "int \<Rightarrow> bool" where
  "isleap y \<longleftrightarrow> y mod 4 = 0 \<and> (y mod 100 \<noteq> 0 \<or> y mod 400 = 0)"

definition days_in_month :: "int \<Rightarrow> int \<Rightarrow> int" where
  "days_in_month y m =
     (if m = 2 then (if isleap y then 29 else 28)
      else if m = 4 \<or> m = 6 \<or> m = 9 \<or> m = 11 then 30 else 31)"

fun add_years :: "datetime \<Rightarrow> int \<Rightarrow> py_error + datetime" where
  "add_years (y, m, d) n =
     (let y' = y + n; d' = min (days_in_month y' m) d
      in if y' < 1 \<or> 9999 < y' then Inl ValueError else Inr (y', m, d'))"

text \<open>The source prints the two dates when \<^verbatim>\<open>verbose == 1\<close>; printing is not modelled.\<close>

definition get_horizon_start_end :: "datetime \<Rightarrow> int \<Rightarrow> int \<Rightarrow> py_error + datetime \<times> datetime" where
  "get_horizon_start_end start_date year_start horizon_length =
     (case add_years start_date year_start of
        Inl e \<Rightarrow> Inl e
      | Inr horizon_start \<Rightarrow>
          (case add_years horizon_start horizon_length of
             Inl e \<Rightarrow> Inl e
           | Inr horizon_end \<Rightarrow> Inr (horizon_start, horizon_end)))"

section \<open>DrawdownAnnotator\<close>

text \<open>\<^verbatim>\<open>Series.max()\<close>: the maximum of the selected values, NaN when nothing is selected.\<close>

fun list_max :: "real list \<Rightarrow> real option" where
  "list_max [] = None"
| "list_max (x # xs) = (case list_max xs of None \<Rightarrow> Some x | Some m \<Rightarrow> Some (max x m))"


text \<open>
  One pass of the bootstrap loop for the row \<open>row_idx\<close>:
  \<^verbatim>\<open>df.loc[row_idx, 'moving_max'] = df[df.moving_max.isnull()].High.max()\<close>,
  the selection being taken on the frame as it is at that moment.
\<close>

definition bootstrap_step :: "nat \<Rightarrow> frame \<Rightarrow> frame" where
  "bootstrap_step row_idx df =
     df[row_idx := (df ! row_idx)
         \<lparr>moving_max := list_max (map High (filter (\<lambda>r. moving_max r = None) df))\<rparr>]"


text \<open>
  \<^verbatim>\<open>df['percent_drop'] = 1 - df['Adj Close'] / df.moving_max\<close>: the attribute access raises
  AttributeError when the frame has no column \<open>moving_max\<close>.
\<close>

definition compute_percent_drop :: "dataframe \<Rightarrow> py_error + frame" where
  "compute_percent_drop df =
     (if \<not> has_moving_max df then Inl AttributeError
      else Inr (map (\<lambda>r. r\<lparr>percent_drop :=
                  xsub (Fin 1) (xdiv (Fin (Adj_Close r)) (as_float (moving_max r)))\<rparr>)
                 (frame_rows df)))"

section \<open>End-to-end entry point\<close>

fun dt_le :: "datetime \<Rightarrow> datetime \<Rightarrow> bool" where
  "dt_le (y1, m1, d1) (y2, m2, d2) \<longleftrightarrow>
     y1 < y2 \<or> (y1 = y2 \<and> (m1 < m2 \<or> (m1 = m2 \<and> d1 \<le> d2)))"

text \<open>
  \<^verbatim>\<open>df.loc[horizon_start:horizon_end].reset_index()\<close> on a frame indexed by its dates in
  chronological order: the rows whose date lies between the two bounds, both included.
\<close>

definition slice_dates :: "frame \<Rightarrow> datetime \<Rightarrow> datetime \<Rightarrow> frame" where
  "slice_dates df horizon_start horizon_end =
     filter (\<lambda>r. dt_le horizon_start (Date r) \<and> dt_le (Date r) horizon_end) df"

text \<open>The slice has the columns of the frame it is taken from.\<close>

definition create_investment_plan ::
  "dataframe \<Rightarrow> datetime \<Rightarrow> int \<Rightarrow> int \<Rightarrow> string \<Rightarrow> real \<Rightarrow> real \<Rightarrow> real \<Rightarrow> pynum \<Rightarrow> pynum
     \<Rightarrow> py_error + frame" where
  "create_investment_plan df start_date year_start horizon_length mode monthly_savings
       perc_monthly_invest perc_drop_threshold waiting_days drop_multiplier =
     (case get_horizon_start_end start_date year_start horizon_length of
        Inl e \<Rightarrow> Inl e
      | Inr (horizon_start, horizon_end) \<Rightarrow>
          (let df_horizon = df\<lparr>frame_rows := slice_dates (frame_rows df) horizon_start horizon_end\<rparr>
           in (case compute_percent_drop df_horizon of
                 Inl e \<Rightarrow> Inl e
               | Inr df_horizon \<Rightarrow>
                   (let investment_plan = assign_available_capital df_horizon monthly_savings
                    in determine_buy_and_investment_amount investment_plan mode perc_monthly_invest
                         perc_drop_threshold waiting_days drop_multiplier))))"

section \<open>PerformanceEvaluator\<close>

text \<open>
  \<^verbatim>\<open>groupby('year')\<close> orders the groups by year. \<^verbatim>\<open>.sum()\<close> skips null cells and keeps
  infinite ones; \<^verbatim>\<open>.Open.tail(1).values\<close> is the Open of the last row of every group, in the
  order of the rows of the frame, as a bare array: the product with the sums pairs the two by
  position.
\<close>

definition group_years :: "frame \<Rightarrow> int list" where
  "group_years df = sort (remdups (map year df))"

definition group_sum :: "(row \<Rightarrow> xfloat) \<Rightarrow> frame \<Rightarrow> int \<Rightarrow> xfloat" where
  "group_sum col df y = xsum (map col (filter (\<lambda>r. year r = y) df))"

fun group_tails :: "frame \<Rightarrow> real list" where
  "group_tails [] = []"
| "group_tails (r # rs) = (if year r \<in> set (map year rs) then [] else [Open r]) @ group_tails rs"

definition compute_roi ::
  "frame \<Rightarrow> xfloat list \<times> xfloat list \<times> xfloat list \<times> xfloat list" where
  "compute_roi investment_plan =
     (let ys = group_years investment_plan;
          portfolio_per_year =
            map (\<lambda>(s, p). xmul s (Fin p))
              (zip (xcumsum (Fin 0) (map (group_sum share_amount investment_plan) ys))
                   (group_tails investment_plan));
          amount_invested_per_year =
            xcumsum (Fin 0)
              (map (group_sum (\<lambda>r. as_float (investment_amount r)) investment_plan) ys);
          win_per_year = map (\<lambda>(p, a). xsub p a) (zip portfolio_per_year amount_invested_per_year);
          roi_per_year = map (\<lambda>(w, a). xdiv w a) (zip win_per_year amount_invested_per_year)
      in (portfolio_per_year, amount_invested_per_year, win_per_year, roi_per_year))"

section \<open>Auxiliary notions for the proofs\<close>

subsection \<open>Notions the claims are stated with\<close>

text \<open>
  A row is the first trading day of its month when no earlier row of the frame has its
  (year, month) key: the rows whose Date \<^verbatim>\<open>groupby(['year', 'month']).Date.first()\<close> returns.
\<close>

definition month_first :: "frame \<Rightarrow> nat \<Rightarrow> bool" where
  "month_first df t \<longleftrightarrow>
     (year (df ! t), month (df ! t)) \<notin> set (map (\<lambda>r. (year r, month r)) (take t df))"

text \<open>
  A trigger executes in a state of the loop when the body reaches its assignments
  (line 196 of the source): the waiting window has elapsed, the row is not the last one and
  the trigger is not suppressed in hybrid mode.
\<close>

definition executes :: "string \<Rightarrow> int \<Rightarrow> nat \<Rightarrow> frame \<times> int \<Rightarrow> nat \<Rightarrow> bool" where
  "executes mode waiting_days last_idx st row_idx \<longleftrightarrow>
     int row_idx - snd st \<ge> waiting_days \<and> row_idx \<noteq> last_idx \<and>
     \<not> (mode = ''hybrid_strategy'' \<and> buy (fst st ! (row_idx + 1)))"

text \<open>
  The triggers that executed during a run of the loop, in the order of the run: the loop of
  \<open>drop_loop\<close> with the state threaded the same way, collecting the trigger indices.
\<close>

fun executed_triggers ::
  "string \<Rightarrow> int \<Rightarrow> int \<Rightarrow> nat \<Rightarrow> nat list \<Rightarrow> frame \<times> int \<Rightarrow> nat list" where
  "executed_triggers mode wd dm li [] st = []"
| "executed_triggers mode wd dm li (i # is) st =
     (case drop_step mode wd dm li st i of
        Inl e \<Rightarrow> []
      | Inr st' \<Rightarrow> (if executes mode wd li st i then [i] else [])
                   @ executed_triggers mode wd dm li is st')"

subsection \<open>Notions the proofs use\<close>

text \<open>
  The frame after an executed buy for trigger \<open>i\<close>; the flags of \<open>month_first\<close> as a list,
  and the investment amounts of the monthly leg; the amount of a row with null read as 0;
  the cash invariant of a frame; a row without the columns the planner writes, and the
  columns of a row that the pipeline never changes after the percent drop is computed.
\<close>

definition buy_row :: "int \<Rightarrow> frame \<Rightarrow> nat \<Rightarrow> frame" where
  "buy_row drop_multiplier df i =
     (let pct = fminimum 1 (xmul (percent_drop (df ! i)) (Fin (real_of_int drop_multiplier)));
          amt = fmul (cash (df ! (i + 1))) pct
      in sub_cash_from (i + 1) amt
           (df[i + 1 := (df ! (i + 1))\<lparr>buy := True, investment_percent := pct, investment_amount := amt\<rparr>]))"

fun first_flags :: "(int \<times> int) list \<Rightarrow> frame \<Rightarrow> bool list" where
  "first_flags seen [] = []"
| "first_flags seen (r # rs) =
     ((year r, month r) \<notin> set seen) # first_flags ((year r, month r) # seen) rs"

definition monthly_amounts :: "frame \<Rightarrow> real \<Rightarrow> real list" where
  "monthly_amounts df a = map (\<lambda>hit. if hit then a else 0) (first_flags [] df)"

abbreviation amt :: "row \<Rightarrow> real" where
  "amt r \<equiv> fillna0 (investment_amount r)"

definition cash_ok :: "frame \<Rightarrow> bool" where
  "cash_ok df \<longleftrightarrow>
     (\<forall>t<length df. capital (df ! t) \<noteq> None \<and>
        cash (df ! t) = fsub (capital (df ! t)) (Some (sum_list (map amt (take (Suc t) df)))))"

definition base :: "row \<Rightarrow> row" where
  "base r = r\<lparr>buy := False, investment_percent := None, investment_amount := None, cash := None\<rparr>"

definition core :: "row \<Rightarrow> datetime \<times> real \<times> real \<times> real option \<times> xfloat" where
  "core r = (Date r, High r, Adj_Close r, moving_max r, percent_drop r)"

subsection \<open>Example frames\<close>

text \<open>
  Rows of 2020 with the given month, day, price (open, high and adjusted close alike),
  percent drop and capital; the planner's columns are empty.
\<close>

definition ex_row :: "int \<Rightarrow> int \<Rightarrow> real \<Rightarrow> xfloat \<Rightarrow> real option \<Rightarrow> row" where
  "ex_row m d op pd cap =
     \<lparr>Date = (2020, m, d), year = 2020, month = m, Open = op, High = op, Adj_Close = op,
      moving_max = None, percent_drop = pd, capital = cap, buy = False,
      investment_percent = None, investment_amount = None, cash = None, share_amount = NaN\<rparr>"

text \<open>
  A hybrid run: month starts on rows 0 and 2, drawdown triggers on rows 1 and 2. The trigger
  of row 1 would buy on the monthly buy day 2 and is suppressed; the trigger of row 2 buys
  on row 3.
\<close>

definition ex_hybrid :: frame where
  "ex_hybrid = [ex_row 1 30 100 NaN (Some 100), ex_row 1 31 90 (Fin (1/10)) (Some 100),
                ex_row 2 1 90 (Fin (1/10)) (Some 200), ex_row 2 2 95 (Fin 0) (Some 200)]"

definition ex_hybrid_monthly_plan :: frame where
  "ex_hybrid_monthly_plan =
    [(ex_row 1 30 100 NaN (Some 100))\<lparr>buy := True, investment_percent := Some (1/2), investment_amount := Some 50, cash := Some 50\<rparr>,
     (ex_row 1 31 90 (Fin (1/10)) (Some 100))\<lparr>buy := False, investment_percent := Some 0, investment_amount := Some 0, cash := Some 50\<rparr>,
     (ex_row 2 1 90 (Fin (1/10)) (Some 200))\<lparr>buy := True, investment_percent := Some (1/2), investment_amount := Some 50, cash := Some 100\<rparr>,
     (ex_row 2 2 95 (Fin 0) (Some 200))\<lparr>buy := False, investment_percent := Some 0, investment_amount := Some 0, cash := Some 100\<rparr>]"

definition ex_hybrid_drop_plan :: frame where
  "ex_hybrid_drop_plan =
    [(ex_row 1 30 100 NaN (Some 100))\<lparr>buy := True, investment_percent := Some (1/2), investment_amount := Some 50, cash := Some 50\<rparr>,
     (ex_row 1 31 90 (Fin (1/10)) (Some 100))\<lparr>buy := False, investment_percent := Some 0, investment_amount := Some 0, cash := Some 50\<rparr>,
     (ex_row 2 1 90 (Fin (1/10)) (Some 200))\<lparr>buy := True, investment_percent := Some (1/2), investment_amount := Some 50, cash := Some 100\<rparr>,
     (ex_row 2 2 95 (Fin 0) (Some 200))\<lparr>buy := True, investment_percent := Some (1/5), investment_amount := Some 20, cash := Some 80\<rparr>]"

text \<open>
  A market-timing run with a trigger on every row and three waiting days: the triggers 0
  and 3 execute, the others are dropped.
\<close>

definition mt_row :: "int \<Rightarrow> bool \<Rightarrow> real option \<Rightarrow> real option \<Rightarrow> real option \<Rightarrow> row" where
  "mt_row d b ip ia c =
     (ex_row 1 d 100 (Fin (1/10)) (Some 100))
       \<lparr>buy := b, investment_percent := ip, investment_amount := ia, cash := c\<rparr>"

definition ex_mt :: frame where
  "ex_mt = map (\<lambda>d. mt_row d False (Some 0) (Some 0) (Some 100)) [1, 2, 3, 4, 5, 6]"

definition ex_mt_mid :: frame where
  "ex_mt_mid =
     [mt_row 1 False (Some 0) (Some 0) (Some 100),
      mt_row 2 True (Some (1/5)) (Some 20) (Some 80),
      mt_row 3 False (Some 0) (Some 0) (Some 80),
      mt_row 4 False (Some 0) (Some 0) (Some 80),
      mt_row 5 False (Some 0) (Some 0) (Some 80),
      mt_row 6 False (Some 0) (Some 0) (Some 80)]"

definition ex_mt_plan :: frame where
  "ex_mt_plan =
     [mt_row 1 False (Some 0) (Some 0) (Some 100),
      mt_row 2 True (Some (1/5)) (Some 20) (Some 80),
      mt_row 3 False (Some 0) (Some 0) (Some 80),
      mt_row 4 False (Some 0) (Some 0) (Some 80),
      mt_row 5 True (Some (1/5)) (Some 16) (Some 64),
      mt_row 6 False (Some 0) (Some 0) (Some 64)]"




text \<open>
  The 3-record horizon of the specification's end-to-end example: opens 100, 101, 102 in
  one month; with its capital and its plan under the monthly strategy.
\<close>

definition ex_three :: frame where
  "ex_three = [ex_row 1 2 100 NaN None, ex_row 1 3 101 NaN None, ex_row 1 6 102 NaN None]"

definition ex_three_cap :: frame where
  "ex_three_cap =
     [ex_row 1 2 100 NaN (Some 100), ex_row 1 3 101 NaN (Some 100), ex_row 1 6 102 NaN (Some 100)]"

definition ex_three_monthly_plan :: frame where
  "ex_three_monthly_plan =
     [(ex_row 1 2 100 NaN (Some 100))\<lparr>buy := True, investment_percent := Some 1,
         investment_amount := Some 100, cash := Some 0\<rparr>,
      (ex_row 1 3 101 NaN (Some 100))\<lparr>buy := False, investment_percent := Some 0,
         investment_amount := Some 0, cash := Some 0\<rparr>,
      (ex_row 1 6 102 NaN (Some 100))\<lparr>buy := False, investment_percent := Some 0,
         investment_amount := Some 0, cash := Some 0\<rparr>]"

text \<open>
  A plan over two years for the evaluator: 400 invested for 4 shares in 2019, 600 for 8
  shares in 2020; the last opens of the years are 90 and 100.
\<close>

definition ex_roi :: frame where
  "ex_roi =
     [(ex_row 12 30 80 NaN None)\<lparr>Date := (2019, 12, 30), year := 2019, investment_amount := Some 400, share_amount := Fin 4\<rparr>,
      (ex_row 12 31 90 NaN None)\<lparr>Date := (2019, 12, 31), year := 2019, investment_amount := Some 0, share_amount := Fin 0\<rparr>,
      (ex_row 1 2 75 NaN None)\<lparr>investment_amount := Some 600, share_amount := Fin 8\<rparr>,
      (ex_row 1 3 100 NaN None)\<lparr>investment_amount := Some 0, share_amount := Fin 0\<rparr>]"

text \<open>
  A plan with a buy at an open price of 0, before the planner's last step: that step gives
  the record the share amount \<open>100 / 0 = +inf\<close>.
\<close>

definition ex_zero_open :: frame where
  "ex_zero_open =
     [(ex_row 1 2 0 NaN (Some 100))\<lparr>buy := True, investment_percent := Some 1,
         investment_amount := Some 100, cash := Some 0\<rparr>,
      (ex_row 1 3 50 NaN (Some 100))\<lparr>buy := False, investment_percent := Some 0,
         investment_amount := Some 0, cash := Some 0\<rparr>]"

text \<open>
  An annotated series of three records in one month, with opens (high and adjusted close
  alike) 100, 90, 95 and moving maxima 100, 100, 95: a row of it with the given day, price,
  moving maximum, percent drop and capital. The series as the caller passes it; with its
  percent drop 0, 1/10, 0; with the capital of monthly savings of 100; its monthly leg under the
  market-timing strategy; and its plan before the last step of the planner, where the
  trigger of the second record buys on the third for \<open>min 1 (1/10 * 9)\<close> of the cash.
\<close>

definition an_row :: "int \<Rightarrow> real \<Rightarrow> real \<Rightarrow> xfloat \<Rightarrow> real option \<Rightarrow> row" where
  "an_row d op mm pd cap = (ex_row 1 d op pd cap)\<lparr>moving_max := Some mm\<rparr>"

definition ex_series :: frame where
  "ex_series = [an_row 2 100 100 NaN None, an_row 3 90 100 NaN None, an_row 6 95 95 NaN None]"

definition ex_series_drop :: frame where
  "ex_series_drop =
     [an_row 2 100 100 (Fin 0) None, an_row 3 90 100 (Fin (1/10)) None, an_row 6 95 95 (Fin 0) None]"

definition ex_series_cap :: frame where
  "ex_series_cap =
     [an_row 2 100 100 (Fin 0) (Some 100), an_row 3 90 100 (Fin (1/10)) (Some 100),
      an_row 6 95 95 (Fin 0) (Some 100)]"

definition ex_series_monthly_plan :: frame where
  "ex_series_monthly_plan =
     [(an_row 2 100 100 (Fin 0) (Some 100))\<lparr>buy := False, investment_percent := Some 0,
         investment_amount := Some 0, cash := Some 100\<rparr>,
      (an_row 3 90 100 (Fin (1/10)) (Some 100))\<lparr>buy := False, investment_percent := Some 0,
         investment_amount := Some 0, cash := Some 100\<rparr>,
      (an_row 6 95 95 (Fin 0) (Some 100))\<lparr>buy := False, investment_percent := Some 0,
         investment_amount := Some 0, cash := Some 100\<rparr>]"

definition ex_series_plan :: frame where
  "ex_series_plan =
     [(an_row 2 100 100 (Fin 0) (Some 100))\<lparr>buy := False, investment_percent := Some 0,
         investment_amount := Some 0, cash := Some 100\<rparr>,
      (an_row 3 90 100 (Fin (1/10)) (Some 100))\<lparr>buy := False, investment_percent := Some 0,
         investment_amount := Some 0, cash := Some 100\<rparr>,
      (an_row 6 95 95 (Fin 0) (Some 100))\<lparr>buy := True, investment_percent := Some (9/10),
         investment_amount := Some 90, cash := Some 10\<rparr>]"

section \<open>Lemmas\<close>

lemma length_sub_cash_from [simp]: "length (sub_cash_from k a df) = length df"
  by (simp add: sub_cash_from_def)

lemma nth_sub_cash_from:
  "j < length df \<Longrightarrow>
   sub_cash_from k a df ! j = (if j < k then df ! j else (df ! j)\<lparr>cash := fsub (cash (df ! j)) a\<rparr>)"
  by (auto simp: sub_cash_from_def nth_append min_def)

lemma drop_step_executes:
  "executes mode wd last_idx (df, lb) i \<Longrightarrow> i + 1 < length df \<Longrightarrow>
   drop_step mode wd dm last_idx (df, lb) i = Inr (buy_row dm df i, int i)"
  by (auto simp: drop_step_def executes_def buy_row_def Let_def)

lemma drop_step_skip:
  "\<not> executes mode wd last_idx (df, lb) i \<Longrightarrow> i < length df \<Longrightarrow> Suc last_idx = length df \<Longrightarrow>
   drop_step mode wd dm last_idx (df, lb) i = Inr (df, lb)"
  by (auto simp: drop_step_def executes_def Let_def)

lemma length_buy_row [simp]: "length (buy_row dm df i) = length df"
  by (simp add: buy_row_def Let_def)

lemma nth_buy_row:
  "j < length df \<Longrightarrow> i + 1 < length df \<Longrightarrow>
   buy_row dm df i ! j =
     (let pct = fminimum 1 (xmul (percent_drop (df ! i)) (Fin (real_of_int dm)));
          amt = fmul (cash (df ! (i + 1))) pct
      in if j < i + 1 then df ! j
         else if j = i + 1 then (df ! j)\<lparr>buy := True, investment_percent := pct, investment_amount := amt, cash := fsub (cash (df ! j)) amt\<rparr>
         else (df ! j)\<lparr>cash := fsub (cash (df ! j)) amt\<rparr>)"
  by (auto simp: buy_row_def Let_def nth_sub_cash_from nth_list_update)

lemma executes_next_in_range:
  "executes mode wd last_idx (df, lb) i \<Longrightarrow> i < length df \<Longrightarrow> Suc last_idx = length df \<Longrightarrow>
   i + 1 < length df"
  by (auto simp: executes_def)

lemma drop_step_cases:
  "i < length df \<Longrightarrow> Suc last_idx = length df \<Longrightarrow>
   drop_step mode wd dm last_idx (df, lb) i =
     Inr (if executes mode wd last_idx (df, lb) i then (buy_row dm df i, int i) else (df, lb))"
  using drop_step_executes [of mode wd last_idx df lb i dm]
        drop_step_skip [of mode wd last_idx df lb i dm]
        executes_next_in_range [of mode wd last_idx df lb i]
  by auto

lemma drop_loop_length:
  "\<forall>i\<in>set ts. i < length df \<Longrightarrow> Suc last_idx = length df \<Longrightarrow>
   \<exists>df' lb'. drop_loop mode wd dm last_idx ts (df, lb) = Inr (df', lb') \<and> length df' = length df"
proof (induction ts arbitrary: df lb)
  case Nil
  then show ?case by simp
next
  case (Cons i ts)
  show ?case
  proof (cases "executes mode wd last_idx (df, lb) i")
    case True
    have "\<forall>k\<in>set ts. k < length (buy_row dm df i)" using Cons.prems by simp
    from Cons.IH [OF this, of "int i"] True Cons.prems show ?thesis
      by (simp add: drop_step_cases)
  next
    case False
    from Cons.IH [of df lb] False Cons.prems show ?thesis
      by (simp add: drop_step_cases)
  qed
qed

lemma drop_loop_keeps_monthly:
  "drop_loop ''hybrid_strategy'' wd dm last_idx ts (df, lb) = Inr (df', lb') \<Longrightarrow>
   \<forall>i\<in>set ts. i < length df \<Longrightarrow> Suc last_idx = length df \<Longrightarrow>
   d < length df \<Longrightarrow> buy (df ! d) \<Longrightarrow>
   buy (df' ! d) \<and> investment_percent (df' ! d) = investment_percent (df ! d)
     \<and> investment_amount (df' ! d) = investment_amount (df ! d)"
proof (induction ts arbitrary: df lb)
  case Nil
  then show ?case by simp
next
  case (Cons i ts)
  have i: "i < length df" using Cons.prems by simp
  show ?case
  proof (cases "executes ''hybrid_strategy'' wd last_idx (df, lb) i")
    case True
    let ?df1 = "buy_row dm df i"
    have nx: "i + 1 < length df" using True i Cons.prems(3) by (rule executes_next_in_range)
    have nb: "\<not> buy (df ! (i + 1))" using True by (simp add: executes_def)
    then have dne: "d \<noteq> i + 1" using Cons.prems(5) by auto
    have keep: "buy (?df1 ! d) \<and> investment_percent (?df1 ! d) = investment_percent (df ! d)
        \<and> investment_amount (?df1 ! d) = investment_amount (df ! d)"
      using dne Cons.prems(4,5) nx by (simp add: nth_buy_row Let_def)
    have loop: "drop_loop ''hybrid_strategy'' wd dm last_idx ts (?df1, int i) = Inr (df', lb')"
      using Cons.prems(1,3) True i by (simp add: drop_step_cases)
    have "buy (df' ! d) \<and> investment_percent (df' ! d) = investment_percent (?df1 ! d)
        \<and> investment_amount (df' ! d) = investment_amount (?df1 ! d)"
      using Cons.IH [OF loop] Cons.prems(2,3,4) keep by simp
    with keep show ?thesis by simp
  next
    case False
    have loop: "drop_loop ''hybrid_strategy'' wd dm last_idx ts (df, lb) = Inr (df', lb')"
      using Cons.prems(1,3) False i by (simp add: drop_step_cases)
    show ?thesis using Cons.IH [OF loop] Cons.prems(2,3,4,5) by simp
  qed
qed

lemma length_first_flags [simp]: "length (first_flags seen df) = length df"
  by (induction df arbitrary: seen) auto

lemma nth_first_flags:
  "t < length df \<Longrightarrow>
   first_flags seen df ! t =
     ((year (df ! t), month (df ! t)) \<notin> set seen \<union> set (map (\<lambda>r. (year r, month r)) (take t df)))"
proof (induction df arbitrary: seen t)
  case Nil
  then show ?case by simp
next
  case (Cons r rs)
  show ?case
  proof (cases t)
    case 0
    then show ?thesis by simp
  next
    case (Suc k)
    then have "k < length rs" using Cons.prems by simp
    from Cons.IH [OF this, of "(year r, month r) # seen"] Suc show ?thesis by auto
  qed
qed

lemma nth_first_flags_empty:
  "t < length df \<Longrightarrow> first_flags [] df ! t = month_first df t"
  by (simp add: nth_first_flags month_first_def)

lemma group_first_dates_subset: "set (group_first_dates seen df) \<subseteq> Date ` set df"
  by (induction df arbitrary: seen) auto

lemma merge_left_Cons:
  "merge_left (r # rs) right =
     (case filter (\<lambda>d. d = Date r) right of [] \<Rightarrow> [(r, False)] | ms \<Rightarrow> map (\<lambda>_. (r, True)) ms)
       @ merge_left rs right"
  by (simp add: merge_left_def)

lemma merge_left_Nil [simp]: "merge_left [] right = []"
  by (simp add: merge_left_def)

lemma merge_left_irrelevant:
  "\<forall>r\<in>set df. Date r \<notin> set A \<Longrightarrow> merge_left df (A @ B) = merge_left df B"
proof (induction df)
  case Nil
  then show ?case by simp
next
  case (Cons r rs)
  have "filter (\<lambda>d. d = Date r) A = []" using Cons.prems by (auto simp: filter_empty_conv)
  then show ?case using Cons by (simp add: merge_left_Cons)
qed

lemma merge_left_flags:
  "distinct (map Date df) \<Longrightarrow>
   merge_left df (group_first_dates seen df) = zip df (first_flags seen df)"
proof (induction df arbitrary: seen)
  case Nil
  then show ?case by simp
next
  case (Cons r rs)
  let ?hd = "if (year r, month r) \<in> set seen then [] else [Date r]"
  let ?tl = "group_first_dates ((year r, month r) # seen) rs"
  have notin: "Date r \<notin> set ?tl"
    using group_first_dates_subset [of "(year r, month r) # seen" rs] Cons.prems by auto
  then have f: "filter (\<lambda>d. d = Date r) (?hd @ ?tl) = ?hd"
    by (auto simp: filter_empty_conv)
  have "\<forall>x\<in>set rs. Date x \<notin> set ?hd" using Cons.prems by (auto simp: image_iff)
  then have "merge_left rs (?hd @ ?tl) = merge_left rs ?tl" by (rule merge_left_irrelevant)
  also have "\<dots> = zip rs (first_flags ((year r, month r) # seen) rs)"
    using Cons.IH Cons.prems by simp
  finally show ?case using f by (simp add: merge_left_Cons)
qed

lemma cumsum_Some:
  "cumsum acc (map Some xs) = map (\<lambda>t. Some (acc + sum_list (take (Suc t) xs))) [0..<length xs]"
proof (induction xs arbitrary: acc)
  case Nil
  then show ?case by simp
next
  case (Cons x xs)
  have "[0..<length (x # xs)] = 0 # map Suc [0..<length xs]"
    by (simp add: upt_conv_Cons map_Suc_upt del: upt_Suc)
  then show ?case using Cons by (simp add: comp_def add.assoc)
qed

lemma length_cumsum [simp]: "length (cumsum acc xs) = length xs"
  by (induction acc xs rule: cumsum.induct) auto

lemma length_ffill [simp]: "length (ffill p xs) = length xs"
  by (induction p xs rule: ffill.induct) auto

lemma length_monthly_amounts [simp]: "length (monthly_amounts df a) = length df"
  by (simp add: monthly_amounts_def)

lemma nth_monthly_amounts:
  "t < length df \<Longrightarrow> monthly_amounts df a ! t = (if month_first df t then a else 0)"
  by (simp add: monthly_amounts_def nth_first_flags_empty)

lemma create_monthly_investment_plan_rows:
  assumes d: "distinct (map Date df)" and p: "0 \<le> perc" "perc \<le> 1"
    and c: "first_capital df = Inr c0"
  shows "\<exists>mp. create_monthly_investment_plan df perc = Inr mp \<and> length mp = length df \<and>
    (\<forall>t<length df. mp ! t = (df ! t)
        \<lparr>buy := month_first df t \<and> perc > 0,
         investment_percent := Some (if month_first df t then perc else 0),
         investment_amount := Some (monthly_amounts df (c0 * perc) ! t),
         cash := fsub (capital (df ! t)) (Some (sum_list (take (Suc t) (monthly_amounts df (c0 * perc)))))\<rparr>)"
proof -
  let ?g = "\<lambda>(r, hit). if hit
              then r\<lparr>buy := perc > 0, investment_percent := Some perc,
                     investment_amount := Some (c0 * perc)\<rparr>
              else r\<lparr>buy := False, investment_percent := Some 0, investment_amount := Some 0\<rparr>"
  let ?m = "zip df (first_flags [] df)"
  let ?df1 = "map ?g ?m"
  let ?A = "monthly_amounts df (c0 * perc)"
  let ?cs = "cumsum 0 (map investment_amount ?df1)"
  let ?mp = "map (\<lambda>(r, c). r\<lparr>cash := fsub (capital r) c\<rparr>) (zip ?df1 ?cs)"
  have m: "merge_left df (group_first_dates [] df) = ?m" using d by (rule merge_left_flags)
  have eq: "create_monthly_investment_plan df perc = Inr ?mp"
    using p c by (simp add: create_monthly_investment_plan_def m Let_def)
  have amts: "map investment_amount ?df1 = map Some ?A"
    by (rule nth_equalityI) (auto simp: monthly_amounts_def)
  have cs: "?cs = map (\<lambda>t. Some (0 + sum_list (take (Suc t) ?A))) [0..<length ?A]"
    unfolding amts by (rule cumsum_Some)
  have len: "length ?mp = length df" by simp
  have rows: "?mp ! t = (df ! t)
        \<lparr>buy := month_first df t \<and> perc > 0,
         investment_percent := Some (if month_first df t then perc else 0),
         investment_amount := Some (?A ! t),
         cash := fsub (capital (df ! t)) (Some (sum_list (take (Suc t) ?A)))\<rparr>"
    if t: "t < length df" for t
  proof -
    have "?mp ! t = (?df1 ! t)\<lparr>cash := fsub (capital (?df1 ! t)) (?cs ! t)\<rparr>"
      using t by simp
    moreover have "?cs ! t = Some (sum_list (take (Suc t) ?A))"
      using t unfolding cs by simp
    moreover have "?df1 ! t = (df ! t)
        \<lparr>buy := month_first df t \<and> perc > 0,
         investment_percent := Some (if month_first df t then perc else 0),
         investment_amount := Some (?A ! t)\<rparr>"
      using t by (simp add: nth_monthly_amounts nth_first_flags_empty)
    ultimately show ?thesis by simp
  qed
  show ?thesis using eq len rows by blast
qed

lemma sum_list_update_real:
  "k < length xs \<Longrightarrow> sum_list (xs[k := x]) = sum_list xs + x - (xs ! k :: real)"
proof (induction xs arbitrary: k)
  case Nil
  then show ?case by simp
next
  case (Cons y ys)
  then show ?case by (cases k) auto
qed

lemma sum_list_take_update:
  "k < length xs \<Longrightarrow>
   sum_list (take m (xs[k := x])) = sum_list (take m xs) + (if k < m then x - (xs ! k :: real) else 0)"
  by (auto simp: take_update_swap sum_list_update_real list_update_beyond)

lemma map_amt_buy_row:
  "i + 1 < length df \<Longrightarrow>
   map amt (buy_row dm df i) =
     (map amt df)[i + 1 := fillna0 (fmul (cash (df ! (i + 1)))
        (fminimum 1 (xmul (percent_drop (df ! i)) (Fin (real_of_int dm)))))]"
  by (rule nth_equalityI) (auto simp: nth_buy_row Let_def nth_list_update)

lemma cash_ok_buy_row:
  assumes ok: "cash_ok df" and nx: "i + 1 < length df"
    and pd: "fminimum 1 (xmul (percent_drop (df ! i)) (Fin (real_of_int dm))) \<noteq> None"
    and z: "amt (df ! (i + 1)) = 0"
  shows "cash_ok (buy_row dm df i)"
proof -
  obtain q where q: "fminimum 1 (xmul (percent_drop (df ! i)) (Fin (real_of_int dm))) = Some q"
    using pd by auto
  obtain c where c: "capital (df ! (i + 1)) = Some c" using ok nx by (auto simp: cash_ok_def)
  let ?s = "sum_list (map amt (take (Suc (i + 1)) df))"
  have cn: "cash (df ! (i + 1)) = Some (c - ?s)" using ok nx c by (auto simp: cash_ok_def)
  let ?a = "(c - ?s) * q"
  have a: "fmul (cash (df ! (i + 1))) (fminimum 1 (xmul (percent_drop (df ! i)) (Fin (real_of_int dm)))) = Some ?a"
    using cn by (simp add: q)
  have sums: "sum_list (map amt (take (Suc t) (buy_row dm df i))) =
      sum_list (map amt (take (Suc t) df)) + (if i + 1 \<le> t then ?a else 0)" for t
  proof -
    have "map amt (take (Suc t) (buy_row dm df i)) = take (Suc t) (map amt (buy_row dm df i))"
      by (simp add: take_map)
    also have "\<dots> = take (Suc t) ((map amt df)[i + 1 := ?a])"
      unfolding map_amt_buy_row [OF nx] a by simp
    finally show ?thesis using nx z by (simp add: sum_list_take_update take_map)
  qed
  show ?thesis unfolding cash_ok_def
  proof (intro allI impI)
    fix t assume "t < length (buy_row dm df i)"
    then have t: "t < length df" by simp
    obtain ct where ct: "capital (df ! t) = Some ct" using ok t by (auto simp: cash_ok_def)
    have cash_t: "cash (df ! t) = Some (ct - sum_list (map amt (take (Suc t) df)))"
      using ok t ct by (auto simp: cash_ok_def)
    show "capital (buy_row dm df i ! t) \<noteq> None \<and>
          cash (buy_row dm df i ! t) =
            fsub (capital (buy_row dm df i ! t)) (Some (sum_list (map amt (take (Suc t) (buy_row dm df i)))))"
      using t nx ct cash_t a by (auto simp: nth_buy_row Let_def sums)
  qed
qed

lemma base_buy_row: "i + 1 < length df \<Longrightarrow> map base (buy_row dm df i) = map base df"
  by (rule nth_equalityI) (auto simp: nth_buy_row Let_def base_def)

lemma drop_loop_base:
  "drop_loop mode wd dm last_idx ts (df, lb) = Inr (df', lb') \<Longrightarrow>
   \<forall>i\<in>set ts. i < length df \<Longrightarrow> Suc last_idx = length df \<Longrightarrow>
   map base df' = map base df"
proof (induction ts arbitrary: df lb)
  case Nil
  then show ?case by simp
next
  case (Cons i ts)
  have i: "i < length df" using Cons.prems by simp
  show ?case
  proof (cases "executes mode wd last_idx (df, lb) i")
    case True
    let ?df1 = "buy_row dm df i"
    have nx: "i + 1 < length df" using True i Cons.prems(3) by (rule executes_next_in_range)
    have loop: "drop_loop mode wd dm last_idx ts (?df1, int i) = Inr (df', lb')"
      using Cons.prems(1,3) True i by (simp add: drop_step_cases)
    have "map base df' = map base ?df1"
      using Cons.IH [OF loop] Cons.prems(2,3) by simp
    then show ?thesis using base_buy_row [OF nx] by simp
  next
    case False
    have loop: "drop_loop mode wd dm last_idx ts (df, lb) = Inr (df', lb')"
      using Cons.prems(1,3) False i by (simp add: drop_step_cases)
    show ?thesis using Cons.IH [OF loop] Cons.prems(2,3) by simp
  qed
qed

lemma drop_loop_cash_ok:
  "drop_loop mode wd dm last_idx ts (df, lb) = Inr (df', lb') \<Longrightarrow>
   distinct ts \<Longrightarrow>
   \<forall>i\<in>set ts. i < length df \<and>
      fminimum 1 (xmul (percent_drop (df ! i)) (Fin (real_of_int dm))) \<noteq> None \<and>
      (i + 1 < length df \<and> amt (df ! (i + 1)) \<noteq> 0 \<longrightarrow>
         mode = ''hybrid_strategy'' \<and> buy (df ! (i + 1))) \<Longrightarrow>
   Suc last_idx = length df \<Longrightarrow> cash_ok df \<Longrightarrow> cash_ok df'"
proof (induction ts arbitrary: df lb)
  case Nil
  then show ?case by simp
next
  case (Cons i ts)
  have i: "i < length df" using Cons.prems by simp
  show ?case
  proof (cases "executes mode wd last_idx (df, lb) i")
    case True
    let ?df1 = "buy_row dm df i"
    have nx: "i + 1 < length df" using True i Cons.prems(4) by (rule executes_next_in_range)
    have loop: "drop_loop mode wd dm last_idx ts (?df1, int i) = Inr (df', lb')"
      using Cons.prems(1,4) True i by (simp add: drop_step_cases)
    have z: "amt (df ! (i + 1)) = 0" using True Cons.prems(3) nx by (auto simp: executes_def)
    have pd: "fminimum 1 (xmul (percent_drop (df ! i)) (Fin (real_of_int dm))) \<noteq> None"
      using Cons.prems(3) by simp
    have ok1: "cash_ok ?df1" using Cons.prems(5) nx pd z by (rule cash_ok_buy_row)
    have rest: "\<forall>k\<in>set ts. k < length ?df1 \<and>
      fminimum 1 (xmul (percent_drop (?df1 ! k)) (Fin (real_of_int dm))) \<noteq> None \<and>
      (k + 1 < length ?df1 \<and> amt (?df1 ! (k + 1)) \<noteq> 0 \<longrightarrow>
         mode = ''hybrid_strategy'' \<and> buy (?df1 ! (k + 1)))"
    proof
      fix k assume k: "k \<in> set ts"
      then have kk: "k < length df"
        "fminimum 1 (xmul (percent_drop (df ! k)) (Fin (real_of_int dm))) \<noteq> None"
        "k + 1 < length df \<and> amt (df ! (k + 1)) \<noteq> 0 \<longrightarrow>
           mode = ''hybrid_strategy'' \<and> buy (df ! (k + 1))"
        "k \<noteq> i"
        using Cons.prems(2,3) by auto
      have pdk: "percent_drop (?df1 ! k) = percent_drop (df ! k)"
        using kk(1) nx by (simp add: nth_buy_row Let_def)
      have "k + 1 < length df \<longrightarrow>
          amt (?df1 ! (k + 1)) = amt (df ! (k + 1)) \<and> buy (?df1 ! (k + 1)) = buy (df ! (k + 1))"
        using kk(4) nx by (simp add: nth_buy_row Let_def)
      with kk pdk show "k < length ?df1 \<and>
        fminimum 1 (xmul (percent_drop (?df1 ! k)) (Fin (real_of_int dm))) \<noteq> None \<and>
        (k + 1 < length ?df1 \<and> amt (?df1 ! (k + 1)) \<noteq> 0 \<longrightarrow>
           mode = ''hybrid_strategy'' \<and> buy (?df1 ! (k + 1)))"
        by auto
    qed
    show ?thesis
      using Cons.IH [OF loop _ rest _ ok1] Cons.prems(2,4) by simp
  next
    case False
    have loop: "drop_loop mode wd dm last_idx ts (df, lb) = Inr (df', lb')"
      using Cons.prems(1,4) False i by (simp add: drop_step_cases)
    show ?thesis using Cons.IH [OF loop] Cons.prems(2,3,4,5) by simp
  qed
qed

lemma create_monthly_Inr_D:
  "create_monthly_investment_plan df perc = Inr mp \<Longrightarrow>
   0 \<le> perc \<and> perc \<le> 1 \<and> (\<exists>c0. first_capital df = Inr c0)"
  by (auto simp: create_monthly_investment_plan_def split: if_splits sum.splits)

lemma monthly_plan_rows:
  assumes r: "create_monthly_investment_plan df perc = Inr mp" and d: "distinct (map Date df)"
  shows "length mp = length df \<and> (\<exists>c0. first_capital df = Inr c0 \<and>
    (\<forall>t<length df. mp ! t = (df ! t)
        \<lparr>buy := month_first df t \<and> perc > 0,
         investment_percent := Some (if month_first df t then perc else 0),
         investment_amount := Some (monthly_amounts df (c0 * perc) ! t),
         cash := fsub (capital (df ! t)) (Some (sum_list (take (Suc t) (monthly_amounts df (c0 * perc)))))\<rparr>))"
proof -
  from create_monthly_Inr_D [OF r] obtain c0 where
    p: "0 \<le> perc" "perc \<le> 1" and c: "first_capital df = Inr c0" by auto
  from create_monthly_investment_plan_rows [OF d p c] r c show ?thesis by auto
qed

lemma monthly_plan_amt:
  assumes r: "create_monthly_investment_plan df perc = Inr mp" and d: "distinct (map Date df)"
  shows "\<exists>c0. first_capital df = Inr c0 \<and> map amt mp = monthly_amounts df (c0 * perc)"
proof -
  from monthly_plan_rows [OF r d] obtain c0 where len: "length mp = length df"
    and c: "first_capital df = Inr c0"
    and rows: "\<forall>t<length df. mp ! t = (df ! t)
        \<lparr>buy := month_first df t \<and> perc > 0,
         investment_percent := Some (if month_first df t then perc else 0),
         investment_amount := Some (monthly_amounts df (c0 * perc) ! t),
         cash := fsub (capital (df ! t)) (Some (sum_list (take (Suc t) (monthly_amounts df (c0 * perc)))))\<rparr>"
    by blast
  have "map amt mp = monthly_amounts df (c0 * perc)"
    by (rule nth_equalityI) (simp_all add: len rows)
  with c show ?thesis by blast
qed

lemma monthly_plan_cash_ok:
  assumes r: "create_monthly_investment_plan df perc = Inr mp" and d: "distinct (map Date df)"
    and cap: "\<forall>r\<in>set df. capital r \<noteq> None"
  shows "cash_ok mp"
proof -
  from monthly_plan_rows [OF r d] obtain c0 where len: "length mp = length df"
    and rows: "\<forall>t<length df. mp ! t = (df ! t)
        \<lparr>buy := month_first df t \<and> perc > 0,
         investment_percent := Some (if month_first df t then perc else 0),
         investment_amount := Some (monthly_amounts df (c0 * perc) ! t),
         cash := fsub (capital (df ! t)) (Some (sum_list (take (Suc t) (monthly_amounts df (c0 * perc)))))\<rparr>"
    by blast
  have a: "map amt mp = monthly_amounts df (c0 * perc)"
    by (rule nth_equalityI) (simp_all add: len rows)
  show ?thesis unfolding cash_ok_def
  proof (intro allI impI)
    fix t assume "t < length mp"
    then have t: "t < length df" using len by simp
    have "map amt (take (Suc t) mp) = take (Suc t) (monthly_amounts df (c0 * perc))"
      by (simp add: a [symmetric] take_map)
    moreover have "capital (df ! t) \<noteq> None" using cap t by simp
    ultimately show "capital (mp ! t) \<noteq> None \<and>
       cash (mp ! t) = fsub (capital (mp ! t)) (Some (sum_list (map amt (take (Suc t) mp))))"
      using t rows by simp
  qed
qed

lemma triggers_facts:
  "distinct (triggers thr df) \<and> sorted_wrt (<) (triggers thr df) \<and>
   (\<forall>i\<in>set (triggers thr df). i < length df \<and> fge (percent_drop (df ! i)) thr)"
  by (auto simp: triggers_def sorted_wrt_filter)

lemma fge_cases: "fge x thr \<Longrightarrow> (\<exists>p. x = Fin p \<and> thr \<le> p) \<or> x = PInf"
  by (cases x) auto

lemma fminimum_trigger:
  "fge x thr \<Longrightarrow> 1 \<le> dm \<Longrightarrow>
   fminimum 1 (xmul x (Fin (real_of_int dm))) =
     Some (case x of Fin p \<Rightarrow> min 1 (p * real_of_int dm) | _ \<Rightarrow> 1)"
  by (cases x) auto

lemma create_drop_Inr_D:
  "create_drop_threshold_investment_plan df mode thr wd dm = Inr plan \<Longrightarrow>
   df \<noteq> [] \<and> (\<exists>lb. drop_loop mode (int_of wd) (int_of dm) (length df - 1) (triggers thr df)
       (df, - int_of wd) = Inr (plan, lb))"
  by (auto simp: create_drop_threshold_investment_plan_def split: if_splits sum.splits)

lemma create_drop_Inr_valid:
  "create_drop_threshold_investment_plan df mode thr wd dm = Inr plan \<Longrightarrow>
   0 \<le> thr \<and> thr \<le> 1 \<and> 1 \<le> int_of wd \<and> 1 \<le> int_of dm"
  by (cases wd; cases dm)
     (auto simp: create_drop_threshold_investment_plan_def split: if_splits)

lemma create_drop_cash_ok:
  assumes r: "create_drop_threshold_investment_plan df mode thr wd dm = Inr plan"
    and ok: "cash_ok df"
    and z: "\<forall>t<length df. amt (df ! t) \<noteq> 0 \<longrightarrow> mode = ''hybrid_strategy'' \<and> buy (df ! t)"
  shows "cash_ok plan \<and> map base plan = map base df"
proof -
  from create_drop_Inr_D [OF r] obtain lb where ne: "df \<noteq> []"
    and loop: "drop_loop mode (int_of wd) (int_of dm) (length df - 1) (triggers thr df)
       (df, - int_of wd) = Inr (plan, lb)" by blast
  have li: "Suc (length df - 1) = length df" using ne by simp
  have dm: "1 \<le> int_of dm" using create_drop_Inr_valid [OF r] by simp
  have tr: "\<forall>i\<in>set (triggers thr df). i < length df \<and>
      fminimum 1 (xmul (percent_drop (df ! i)) (Fin (real_of_int (int_of dm)))) \<noteq> None \<and>
      (i + 1 < length df \<and> amt (df ! (i + 1)) \<noteq> 0 \<longrightarrow>
         mode = ''hybrid_strategy'' \<and> buy (df ! (i + 1)))"
    using triggers_facts [of thr df] z fminimum_trigger [OF _ dm] by auto
  have d: "distinct (triggers thr df)" using triggers_facts by simp
  have "cash_ok plan" using loop d tr li ok by (rule drop_loop_cash_ok)
  moreover have "map base plan = map base df"
    using drop_loop_base [OF loop _ li] tr by simp
  ultimately show ?thesis by simp
qed

lemma length_finalize [simp]: "length (finalize df) = length df"
  by (simp add: finalize_def)

lemma nth_finalize:
  "t < length df \<Longrightarrow>
   finalize df ! t = (df ! t)
     \<lparr>investment_percent := Some (fillna0 (investment_percent (df ! t))),
      investment_amount := Some (fillna0 (investment_amount (df ! t))),
      share_amount := xdiv (Fin (fillna0 (investment_amount (df ! t)))) (Fin (Open (df ! t)))\<rparr>"
  by (simp add: finalize_def)

lemma determine_buy_Inr_D:
  assumes "determine_buy_and_investment_amount df mode perc thr wd dm = Inr plan"
  shows "mode \<in> set modes \<and>
    (\<exists>mp. create_monthly_investment_plan df (effective_percent mode perc) = Inr mp \<and>
       (if effective_percent mode perc = 1 then plan = finalize mp
        else \<exists>p2. create_drop_threshold_investment_plan mp mode thr wd dm = Inr p2 \<and>
               plan = finalize p2))"
  using assms
  by (auto simp: determine_buy_and_investment_amount_def Let_def split: if_splits sum.splits)

lemma create_drop_length:
  assumes "create_drop_threshold_investment_plan df mode thr wd dm = Inr plan"
  shows "length plan = length df"
proof -
  from create_drop_Inr_D [OF assms] obtain lb where ne: "df \<noteq> []"
    and loop: "drop_loop mode (int_of wd) (int_of dm) (length df - 1) (triggers thr df)
       (df, - int_of wd) = Inr (plan, lb)" by blast
  have li: "Suc (length df - 1) = length df" using ne by simp
  have "map base plan = map base df"
    using drop_loop_base [OF loop _ li] triggers_facts [of thr df] by simp
  then show ?thesis using length_map by metis
qed

lemma create_drop_keeps_monthly:
  assumes r: "create_drop_threshold_investment_plan df ''hybrid_strategy'' thr wd dm = Inr plan"
    and d: "d < length df" and b: "buy (df ! d)"
  shows "buy (plan ! d) \<and> investment_percent (plan ! d) = investment_percent (df ! d)
     \<and> investment_amount (plan ! d) = investment_amount (df ! d)"
proof -
  from create_drop_Inr_D [OF r] obtain lb where ne: "df \<noteq> []"
    and loop: "drop_loop ''hybrid_strategy'' (int_of wd) (int_of dm) (length df - 1)
       (triggers thr df) (df, - int_of wd) = Inr (plan, lb)" by blast
  have li: "Suc (length df - 1) = length df" using ne by simp
  have tr: "\<forall>i\<in>set (triggers thr df). i < length df" using triggers_facts [of thr df] by simp
  show ?thesis using loop tr li d b by (rule drop_loop_keeps_monthly)
qed

lemma ex_hybrid_monthly_eval:
  "create_monthly_investment_plan ex_hybrid (1/2) = Inr ex_hybrid_monthly_plan"
  by (simp add: create_monthly_investment_plan_def first_capital_def merge_left_def ex_hybrid_def
      ex_hybrid_monthly_plan_def ex_row_def Let_def)

lemma ex_hybrid_triggers: "triggers (1/20) ex_hybrid_monthly_plan = [1, 2]"
  by (simp add: triggers_def ex_hybrid_monthly_plan_def ex_row_def upt_rec)

lemma ex_hybrid_drop_eval:
  "create_drop_threshold_investment_plan ex_hybrid_monthly_plan ''hybrid_strategy'' (1/20)
     (PyInt 1) (PyInt 2) = Inr ex_hybrid_drop_plan"
proof -
  have s1: "drop_step ''hybrid_strategy'' 1 2 3 (ex_hybrid_monthly_plan, - 1) (Suc 0)
      = Inr (ex_hybrid_monthly_plan, - 1)"
    by (simp add: drop_step_def ex_hybrid_monthly_plan_def ex_row_def Let_def)
  have s2: "drop_step ''hybrid_strategy'' 1 2 3 (ex_hybrid_monthly_plan, - 1) 2
      = Inr (ex_hybrid_drop_plan, 2)"
    by (simp add: drop_step_def ex_hybrid_monthly_plan_def ex_hybrid_drop_plan_def ex_row_def
        sub_cash_from_def Let_def)
  have l: "length ex_hybrid_monthly_plan = 4" "ex_hybrid_monthly_plan \<noteq> []"
    by (simp_all add: ex_hybrid_monthly_plan_def)
  show ?thesis
    by (simp add: create_drop_threshold_investment_plan_def ex_hybrid_triggers l s1 s2)
qed

lemma ex_hybrid_eval:
  "determine_buy_and_investment_amount ex_hybrid ''hybrid_strategy'' (1/2) (1/20) (PyInt 1) (PyInt 2)
     = Inr (finalize ex_hybrid_drop_plan)"
  by (simp add: determine_buy_and_investment_amount_def modes_def effective_percent_def
      ex_hybrid_monthly_eval ex_hybrid_drop_eval)

lemma executed_triggers_spacing:
  "sorted_wrt (<) ts \<Longrightarrow> \<forall>i\<in>set ts. i < length df \<Longrightarrow> Suc li = length df \<Longrightarrow>
   sorted_wrt (\<lambda>a b. a < b \<and> w \<le> int b - int a) (executed_triggers mode w dm li ts (df, lb)) \<and>
   (\<forall>a\<in>set (executed_triggers mode w dm li ts (df, lb)). a \<in> set ts \<and> w \<le> int a - lb)"
proof (induction ts arbitrary: df lb)
  case Nil
  then show ?case by simp
next
  case (Cons i ts)
  have i: "i < length df" using Cons.prems by simp
  have st: "sorted_wrt (<) ts" and gt: "\<forall>a\<in>set ts. i < a" using Cons.prems(1) by auto
  show ?case
  proof (cases "executes mode w li (df, lb) i")
    case True
    let ?ex = "executed_triggers mode w dm li ts (buy_row dm df i, int i)"
    have ih: "sorted_wrt (\<lambda>a b. a < b \<and> w \<le> int b - int a) ?ex \<and>
        (\<forall>a\<in>set ?ex. a \<in> set ts \<and> w \<le> int a - int i)"
      using Cons.IH [of "buy_row dm df i" "int i"] st Cons.prems(2,3) by simp
    have wi: "w \<le> int i - lb" using True by (simp add: executes_def)
    have eq: "executed_triggers mode w dm li (i # ts) (df, lb) = i # ?ex"
      using True i Cons.prems(3) by (simp add: drop_step_cases)
    have lbs: "w \<le> int a - lb" if "a \<in> set ?ex" for a
    proof -
      from that ih have "a \<in> set ts" by blast
      with gt have "i < a" by blast
      with wi show ?thesis by linarith
    qed
    show ?thesis unfolding eq using ih gt lbs wi by auto
  next
    case False
    have eq: "executed_triggers mode w dm li (i # ts) (df, lb) =
        executed_triggers mode w dm li ts (df, lb)"
      using False i Cons.prems(3) by (simp add: drop_step_cases)
    show ?thesis unfolding eq using Cons.IH [of df lb] st Cons.prems(2,3) by auto
  qed
qed

lemma drop_loop_buy_origin:
  "drop_loop mode w dm li ts (df, lb) = Inr (df', lb') \<Longrightarrow>
   \<forall>i\<in>set ts. i < length df \<Longrightarrow> Suc li = length df \<Longrightarrow>
   d < length df \<Longrightarrow> buy (df' ! d) \<Longrightarrow>
   buy (df ! d) \<or> (\<exists>i\<in>set (executed_triggers mode w dm li ts (df, lb)). d = i + 1)"
proof (induction ts arbitrary: df lb)
  case Nil
  then show ?case by simp
next
  case (Cons i ts)
  have i: "i < length df" using Cons.prems by simp
  show ?case
  proof (cases "executes mode w li (df, lb) i")
    case True
    let ?df1 = "buy_row dm df i"
    have nx: "i + 1 < length df" using True i Cons.prems(3) by (rule executes_next_in_range)
    have loop: "drop_loop mode w dm li ts (?df1, int i) = Inr (df', lb')"
      using Cons.prems(1,3) True i by (simp add: drop_step_cases)
    have eq: "executed_triggers mode w dm li (i # ts) (df, lb) =
        i # executed_triggers mode w dm li ts (?df1, int i)"
      using True i Cons.prems(3) by (simp add: drop_step_cases)
    have "buy (?df1 ! d) \<or> (\<exists>k\<in>set (executed_triggers mode w dm li ts (?df1, int i)). d = k + 1)"
      using Cons.IH [OF loop] Cons.prems(2,3,4,5) by simp
    moreover have "buy (?df1 ! d) \<Longrightarrow> buy (df ! d) \<or> d = i + 1"
      using Cons.prems(4) nx by (auto simp: nth_buy_row Let_def split: if_splits)
    ultimately show ?thesis unfolding eq by auto
  next
    case False
    have loop: "drop_loop mode w dm li ts (df, lb) = Inr (df', lb')"
      using Cons.prems(1,3) False i by (simp add: drop_step_cases)
    have eq: "executed_triggers mode w dm li (i # ts) (df, lb) =
        executed_triggers mode w dm li ts (df, lb)"
      using False i Cons.prems(3) by (simp add: drop_step_cases)
    show ?thesis unfolding eq using Cons.IH [OF loop] Cons.prems(2,3,4,5) by simp
  qed
qed

lemma spaced_pairs:
  assumes s: "sorted_wrt (\<lambda>a b. a < b \<and> w \<le> int b - int a) xs"
    and a: "a \<in> set xs" and b: "b \<in> set xs" and ab: "a < b"
  shows "w \<le> int b - int a"
proof -
  from a obtain p where p: "p < length xs" "xs ! p = a" by (auto simp: in_set_conv_nth)
  from b obtain q where q: "q < length xs" "xs ! q = b" by (auto simp: in_set_conv_nth)
  have "p \<noteq> q" using p q ab by auto
  then consider "p < q" | "q < p" by linarith
  then show ?thesis
  proof cases
    case 1
    from sorted_wrt_nth_less [OF s 1 q(1)] p q show ?thesis by simp
  next
    case 2
    from sorted_wrt_nth_less [OF s 2 p(1)] p q ab show ?thesis by simp
  qed
qed

lemma ex_mt_triggers: "triggers (1/20) ex_mt = [0, 1, 2, 3, 4, 5]"
  by (simp add: triggers_def ex_mt_def mt_row_def ex_row_def upt_rec)

lemma ex_mt_steps:
  "drop_step ''markettiming_strategy'' 3 2 5 (ex_mt, - 3) 0 = Inr (ex_mt_mid, 0)"
  "drop_step ''markettiming_strategy'' 3 2 5 (ex_mt_mid, 0) (Suc 0) = Inr (ex_mt_mid, 0)"
  "drop_step ''markettiming_strategy'' 3 2 5 (ex_mt_mid, 0) 2 = Inr (ex_mt_mid, 0)"
  "drop_step ''markettiming_strategy'' 3 2 5 (ex_mt_mid, 0) 3 = Inr (ex_mt_plan, 3)"
  "drop_step ''markettiming_strategy'' 3 2 5 (ex_mt_plan, 3) 4 = Inr (ex_mt_plan, 3)"
  "drop_step ''markettiming_strategy'' 3 2 5 (ex_mt_plan, 3) 5 = Inr (ex_mt_plan, 3)"
  by (simp_all add: drop_step_def ex_mt_def ex_mt_mid_def ex_mt_plan_def mt_row_def ex_row_def
      sub_cash_from_def Let_def)

lemma ex_mt_executes:
  "executes ''markettiming_strategy'' 3 5 (ex_mt, - 3) 0"
  "\<not> executes ''markettiming_strategy'' 3 5 (ex_mt_mid, 0) (Suc 0)"
  "\<not> executes ''markettiming_strategy'' 3 5 (ex_mt_mid, 0) 2"
  "executes ''markettiming_strategy'' 3 5 (ex_mt_mid, 0) 3"
  "\<not> executes ''markettiming_strategy'' 3 5 (ex_mt_plan, 3) 4"
  "\<not> executes ''markettiming_strategy'' 3 5 (ex_mt_plan, 3) 5"
  by (simp_all add: executes_def)

lemma ex_mt_length: "length ex_mt = 6" "ex_mt \<noteq> []"
  by (simp_all add: ex_mt_def)

lemma ex_mt_executed:
  "executed_triggers ''markettiming_strategy'' 3 2 5 (triggers (1/20) ex_mt) (ex_mt, - 3) = [0, 3]"
  by (simp add: ex_mt_triggers ex_mt_steps ex_mt_executes)

lemma ex_mt_eval:
  "create_drop_threshold_investment_plan ex_mt ''markettiming_strategy'' (1/20) (PyInt 3) (PyInt 2)
     = Inr ex_mt_plan"
  by (simp add: create_drop_threshold_investment_plan_def ex_mt_triggers ex_mt_length ex_mt_steps)

lemma drop_loop_append:
  "drop_loop mode w dm li (xs @ ys) st =
     (case drop_loop mode w dm li xs st of Inl e \<Rightarrow> Inl e | Inr st' \<Rightarrow> drop_loop mode w dm li ys st')"
  by (induction xs arbitrary: st) (auto split: sum.splits)

lemma drop_loop_rows_below:
  "drop_loop mode w dm li ts (df, lb) = Inr (df', lb') \<Longrightarrow>
   \<forall>j\<in>set ts. j < length df \<and> t \<le> j \<Longrightarrow> Suc li = length df \<Longrightarrow> t < length df \<Longrightarrow>
   df' ! t = df ! t"
proof (induction ts arbitrary: df lb)
  case Nil
  then show ?case by simp
next
  case (Cons i ts)
  have i: "i < length df" "t \<le> i" using Cons.prems by simp_all
  show ?case
  proof (cases "executes mode w li (df, lb) i")
    case True
    let ?df1 = "buy_row dm df i"
    have nx: "i + 1 < length df" using True i(1) Cons.prems(3) by (rule executes_next_in_range)
    have loop: "drop_loop mode w dm li ts (?df1, int i) = Inr (df', lb')"
      using Cons.prems(1,3) True i by (simp add: drop_step_cases)
    have "df' ! t = ?df1 ! t" using Cons.IH [OF loop] Cons.prems(2,3,4) by simp
    also have "\<dots> = df ! t" using i(2) nx Cons.prems(4) by (simp add: nth_buy_row Let_def)
    finally show ?thesis .
  next
    case False
    have loop: "drop_loop mode w dm li ts (df, lb) = Inr (df', lb')"
      using Cons.prems(1,3) False i by (simp add: drop_step_cases)
    show ?thesis using Cons.IH [OF loop] Cons.prems(2,3,4) by simp
  qed
qed

lemma base_percent_drop:
  "map base df' = map base df \<Longrightarrow> t < length df \<Longrightarrow> percent_drop (df' ! t) = percent_drop (df ! t)"
proof -
  assume m: "map base df' = map base df" and t: "t < length df"
  have l: "length df' = length df" using m length_map by metis
  have "base (df' ! t) = base (df ! t)" using m t l by (metis nth_map)
  then have "percent_drop (base (df' ! t)) = percent_drop (base (df ! t))" by simp
  then show ?thesis by (simp add: base_def)
qed

lemma create_drop_total:
  assumes "0 \<le> thr" "thr \<le> 1" "1 \<le> num_val wd" "is_int wd" "1 \<le> num_val dm" "is_int dm" "df \<noteq> []"
  shows "\<exists>plan. create_drop_threshold_investment_plan df mode thr wd dm = Inr plan \<and>
           length plan = length df"
proof -
  have li: "Suc (length df - 1) = length df" using assms(7) by simp
  have tr: "\<forall>i\<in>set (triggers thr df). i < length df" using triggers_facts [of thr df] by simp
  from drop_loop_length [OF tr li, of mode "int_of wd" "int_of dm" "- int_of wd"]
  obtain df' lb' where "drop_loop mode (int_of wd) (int_of dm) (length df - 1) (triggers thr df)
      (df, - int_of wd) = Inr (df', lb')" "length df' = length df" by blast
  then show ?thesis using assms by (simp add: create_drop_threshold_investment_plan_def)
qed

lemma map_amt_finalize: "map amt (finalize df) = map amt df"
  by (simp add: finalize_def comp_def)

lemma cash_ok_finalize: "cash_ok df \<Longrightarrow> cash_ok (finalize df)"
proof -
  assume ok: "cash_ok df"
  have s: "map amt (take n (finalize df)) = map amt (take n df)" for n
    using map_amt_finalize [of df] by (metis take_map)
  show ?thesis unfolding cash_ok_def
  proof (intro allI impI)
    fix t assume "t < length (finalize df)"
    then have t: "t < length df" by simp
    then show "capital (finalize df ! t) \<noteq> None \<and>
       cash (finalize df ! t) =
         fsub (capital (finalize df ! t)) (Some (sum_list (map amt (take (Suc t) (finalize df)))))"
      using ok unfolding s by (simp add: nth_finalize cash_ok_def)
  qed
qed

lemma base_capital:
  "map base df' = map base df \<Longrightarrow> t < length df \<Longrightarrow> capital (df' ! t) = capital (df ! t)"
proof -
  assume m: "map base df' = map base df" and t: "t < length df"
  have l: "length df' = length df" using m length_map by metis
  have "base (df' ! t) = base (df ! t)" using m t l by (metis nth_map)
  then have "capital (base (df' ! t)) = capital (base (df ! t))" by simp
  then show ?thesis by (simp add: base_def)
qed

lemma planner_cash_ok:
  assumes r: "determine_buy_and_investment_amount df mode perc thr wd dm = Inr plan"
    and d: "distinct (map Date df)"
    and cap: "\<forall>r\<in>set df. capital r \<noteq> None"
  shows "cash_ok plan \<and> length plan = length df \<and> (\<forall>t<length df. capital (plan ! t) = capital (df ! t))"
proof -
  let ?e = "effective_percent mode perc"
  from determine_buy_Inr_D [OF r] obtain mp where
    md: "mode \<in> set modes" and
    mp: "create_monthly_investment_plan df ?e = Inr mp" and
    pl: "if ?e = 1 then plan = finalize mp
         else \<exists>p2. create_drop_threshold_investment_plan mp mode thr wd dm = Inr p2 \<and>
               plan = finalize p2"
    by blast
  have okm: "cash_ok mp" using mp d cap by (rule monthly_plan_cash_ok)
  from monthly_plan_rows [OF mp d] obtain c0 where len: "length mp = length df"
    and rows: "\<forall>t<length df. mp ! t = (df ! t)
        \<lparr>buy := month_first df t \<and> ?e > 0,
         investment_percent := Some (if month_first df t then ?e else 0),
         investment_amount := Some (monthly_amounts df (c0 * ?e) ! t),
         cash := fsub (capital (df ! t)) (Some (sum_list (take (Suc t) (monthly_amounts df (c0 * ?e)))))\<rparr>"
    by blast
  have e0: "0 \<le> ?e" using create_monthly_Inr_D [OF mp] by simp
  have capm: "\<forall>t<length df. capital (mp ! t) = capital (df ! t)" using rows by simp
  obtain p2 where fin: "plan = finalize p2" and ok2: "cash_ok p2" and l2: "length p2 = length mp"
    and cap2: "\<forall>t<length mp. capital (p2 ! t) = capital (mp ! t)"
  proof (cases "?e = 1")
    case True
    with pl have "plan = finalize mp" by simp
    then show ?thesis using that [of mp] okm by simp
  next
    case False
    with pl obtain q where q: "create_drop_threshold_investment_plan mp mode thr wd dm = Inr q"
      and pq: "plan = finalize q" by auto
    have hy: "mode = ''hybrid_strategy''" if "?e \<noteq> 0"
      using that False md by (auto simp: effective_percent_def modes_def split: if_splits)
    have z: "\<forall>t<length mp. amt (mp ! t) \<noteq> 0 \<longrightarrow> mode = ''hybrid_strategy'' \<and> buy (mp ! t)"
    proof (intro allI impI)
      fix t assume t: "t < length mp" and nz: "amt (mp ! t) \<noteq> 0"
      then have t': "t < length df" using len by simp
      have "amt (mp ! t) = (if month_first df t then c0 * ?e else 0)"
        using rows t' by (simp add: nth_monthly_amounts)
      with nz have mf: "month_first df t" and ne: "?e \<noteq> 0" by (auto split: if_splits)
      then have "buy (mp ! t)" using rows t' e0 by simp
      with hy [OF ne] show "mode = ''hybrid_strategy'' \<and> buy (mp ! t)" by simp
    qed
    from create_drop_cash_ok [OF q okm z] have okq: "cash_ok q" and bq: "map base q = map base mp"
      by simp_all
    have lq: "length q = length mp" using q by (rule create_drop_length)
    have "\<forall>t<length mp. capital (q ! t) = capital (mp ! t)"
      using base_capital [OF bq] by simp
    then show ?thesis using that [of q] pq okq lq by simp
  qed
  have "cash_ok plan" unfolding fin using ok2 by (rule cash_ok_finalize)
  moreover have "length plan = length df" using fin l2 len by simp
  moreover have "\<forall>t<length df. capital (plan ! t) = capital (df ! t)"
    using fin l2 len cap2 capm by (simp add: nth_finalize)
  ultimately show ?thesis by simp
qed

lemma planner_shares:
  assumes r: "determine_buy_and_investment_amount df mode perc thr wd dm = Inr plan"
    and t: "t < length plan"
  shows "\<exists>a. investment_amount (plan ! t) = Some a \<and>
     share_amount (plan ! t) = xdiv (Fin a) (Fin (Open (plan ! t)))"
proof -
  from determine_buy_Inr_D [OF r] obtain p2 where fin: "plan = finalize p2"
    by (auto split: if_splits)
  then show ?thesis using t by (simp add: nth_finalize)
qed



lemma length_bootstrap_step [simp]: "length (bootstrap_step i df) = length df"
  by (simp add: bootstrap_step_def)







lemma ex_three_capital: "assign_available_capital ex_three 100 = ex_three_cap"
  by (simp add: assign_available_capital_def merge_left_def ex_three_def ex_three_cap_def
      ex_row_def Let_def)

lemma ex_three_monthly:
  "create_monthly_investment_plan ex_three_cap 1 = Inr ex_three_monthly_plan"
  by (simp add: create_monthly_investment_plan_def first_capital_def merge_left_def
      ex_three_cap_def ex_three_monthly_plan_def ex_row_def Let_def)

lemma ex_three_eval:
  "determine_buy_and_investment_amount (assign_available_capital ex_three 100)
     ''monthly_invest_strategy'' perc thr wd dm = Inr (finalize ex_three_monthly_plan)"
  by (simp add: ex_three_capital determine_buy_and_investment_amount_def modes_def
      effective_percent_def ex_three_monthly)

lemma ex_three_fields:
  "map Open (finalize ex_three_monthly_plan) = [100, 101, 102]"
  "map buy (finalize ex_three_monthly_plan) = [True, False, False]"
  "map investment_amount (finalize ex_three_monthly_plan) = [Some 100, Some 0, Some 0]"
  "share_amount (finalize ex_three_monthly_plan ! 0) = Fin 1"
  "cash (finalize ex_three_monthly_plan ! 0) = Some 0"
  by (simp_all add: finalize_def ex_three_monthly_plan_def ex_row_def)

lemma monthly_strategy_plan:
  assumes d: "distinct (map Date df)" and c: "first_capital df = Inr c0"
  shows "\<exists>plan. determine_buy_and_investment_amount df ''monthly_invest_strategy'' perc thr wd dm
            = Inr plan \<and> length plan = length df \<and>
          (\<forall>t<length df. buy (plan ! t) = month_first df t \<and>
             investment_amount (plan ! t) = Some (if month_first df t then c0 else 0))"
proof -
  have p: "(0::real) \<le> 1" "(1::real) \<le> 1" by simp_all
  from create_monthly_investment_plan_rows [OF d p c] obtain mp where
    mp: "create_monthly_investment_plan df 1 = Inr mp" and len: "length mp = length df" and
    rows: "\<forall>t<length df. mp ! t = (df ! t)
        \<lparr>buy := month_first df t \<and> (1::real) > 0,
         investment_percent := Some (if month_first df t then 1 else 0),
         investment_amount := Some (monthly_amounts df (c0 * 1) ! t),
         cash := fsub (capital (df ! t)) (Some (sum_list (take (Suc t) (monthly_amounts df (c0 * 1)))))\<rparr>"
    by blast
  have r: "determine_buy_and_investment_amount df ''monthly_invest_strategy'' perc thr wd dm
      = Inr (finalize mp)"
    by (simp add: determine_buy_and_investment_amount_def modes_def effective_percent_def mp)
  have "buy (finalize mp ! t) = month_first df t \<and>
      investment_amount (finalize mp ! t) = Some (if month_first df t then c0 else 0)"
    if "t < length df" for t
    using that rows len by (simp add: nth_finalize nth_monthly_amounts)
  then show ?thesis using r len by simp
qed

lemma create_monthly_Inr_I:
  "0 \<le> perc \<Longrightarrow> perc \<le> 1 \<Longrightarrow> first_capital df = Inr c0 \<Longrightarrow>
   \<exists>mp. create_monthly_investment_plan df perc = Inr mp"
  by (simp add: create_monthly_investment_plan_def Let_def)

lemma create_drop_invalid:
  "\<not> (0 \<le> thr \<and> thr \<le> 1 \<and> 1 \<le> num_val wd \<and> is_int wd \<and> 1 \<le> num_val dm \<and> is_int dm) \<Longrightarrow>
   create_drop_threshold_investment_plan df mode thr wd dm = Inl AssertionError"
  by (auto simp: create_drop_threshold_investment_plan_def)

lemma xadd_commute: "xadd a b = xadd b a"
  by (cases a; cases b) simp_all

lemma xadd_assoc: "xadd (xadd a b) c = xadd a (xadd b c)"
  by (cases a; cases b; cases c) simp_all

lemma xadd_left_commute: "xadd a (xadd b c) = xadd b (xadd a c)"
  by (cases a; cases b; cases c) simp_all

lemma xadd_zero [simp]: "xadd (Fin 0) x = x" "xadd x (Fin 0) = x"
  by (cases x; simp)+

lemma xadd_NaN_right [simp]: "xadd x NaN = NaN"
  by (cases x) simp_all

lemma xadd_not_NaN: "xadd a b \<noteq> NaN \<Longrightarrow> a \<noteq> NaN \<and> b \<noteq> NaN"
  by (cases a; cases b) simp_all

lemma xsum_Cons: "xsum (x # xs) = (if x = NaN then xsum xs else xadd x (xsum xs))"
  by (cases x) simp_all

lemma xcumsum_Cons:
  "xcumsum acc (x # xs) =
     (if x = NaN then NaN # xcumsum acc xs else xadd acc x # xcumsum (xadd acc x) xs)"
  by (cases x) simp_all

lemma length_xcumsum [simp]: "length (xcumsum acc xs) = length xs"
  by (induction xs arbitrary: acc) (simp_all add: xcumsum_Cons)

lemma xsum_filter_split:
  "\<forall>x\<in>set xs. \<not> (P x \<and> Q x) \<Longrightarrow>
   xadd (xsum (map f (filter P xs))) (xsum (map f (filter Q xs))) =
   xsum (map f (filter (\<lambda>x. P x \<or> Q x) xs))"
proof (induction xs)
  case Nil
  then show ?case by simp
next
  case (Cons x xs)
  let ?A = "xsum (map f (filter P xs))" and ?B = "xsum (map f (filter Q xs))"
  let ?C = "xsum (map f (filter (\<lambda>x. P x \<or> Q x) xs))"
  have ih: "xadd ?A ?B = ?C" using Cons by simp
  have nb: "\<not> (P x \<and> Q x)" using Cons.prems by simp
  show ?case
  proof (cases "P x")
    case True
    with nb have q: "\<not> Q x" by simp
    have "xadd (xsum (f x # map f (filter P xs))) ?B = xsum (f x # map f (filter (\<lambda>x. P x \<or> Q x) xs))"
    proof (cases "f x = NaN")
      case True
      then show ?thesis using ih by (simp add: xsum_Cons)
    next
      case False
      have "xadd (xadd (f x) ?A) ?B = xadd (f x) (xadd ?A ?B)" by (rule xadd_assoc)
      then show ?thesis using False ih by (simp add: xsum_Cons)
    qed
    then show ?thesis using True q by simp
  next
    case False
    show ?thesis
    proof (cases "Q x")
      case True
      have "xadd ?A (xsum (f x # map f (filter Q xs))) = xsum (f x # map f (filter (\<lambda>x. P x \<or> Q x) xs))"
      proof (cases "f x = NaN")
        case True
        then show ?thesis using ih by (simp add: xsum_Cons)
      next
        case False
        have "xadd ?A (xadd (f x) ?B) = xadd (f x) (xadd ?A ?B)" by (rule xadd_left_commute)
        then show ?thesis using False ih by (simp add: xsum_Cons)
      qed
      then show ?thesis using \<open>\<not> P x\<close> True by simp
    next
      case q: False
      show ?thesis using False q ih by simp
    qed
  qed
qed

lemma xsum_group_sums:
  "distinct zs \<Longrightarrow>
   foldr xadd (map (group_sum col df) zs) (Fin 0) =
   xsum (map col (filter (\<lambda>r. year r \<in> set zs) df))"
proof (induction zs)
  case Nil
  then show ?case by simp
next
  case (Cons z zs)
  have dis: "\<forall>r\<in>set df. \<not> (year r = z \<and> year r \<in> set zs)" using Cons.prems by auto
  have ih: "foldr xadd (map (group_sum col df) zs) (Fin 0) =
      xsum (map col (filter (\<lambda>r. year r \<in> set zs) df))" using Cons by simp
  have "foldr xadd (map (group_sum col df) (z # zs)) (Fin 0) =
      xadd (group_sum col df z) (foldr xadd (map (group_sum col df) zs) (Fin 0))" by simp
  also have "\<dots> = xadd (xsum (map col (filter (\<lambda>r. year r = z) df)))
           (xsum (map col (filter (\<lambda>r. year r \<in> set zs) df)))"
    unfolding ih group_sum_def ..
  also have "\<dots> = xsum (map col (filter (\<lambda>r. year r = z \<or> year r \<in> set zs) df))"
    using dis by (rule xsum_filter_split)
  finally show ?case by simp
qed

lemma xcumsum_nth:
  "k < length gs \<Longrightarrow> xadd acc (foldr xadd (take (Suc k) gs) (Fin 0)) \<noteq> NaN \<Longrightarrow>
   xcumsum acc gs ! k = xadd acc (foldr xadd (take (Suc k) gs) (Fin 0))"
proof (induction gs arbitrary: acc k)
  case Nil
  then show ?case by simp
next
  case (Cons g gs)
  have nn: "xadd acc (xadd g (foldr xadd (take k gs) (Fin 0))) \<noteq> NaN"
    using Cons.prems(2) by simp
  have g: "g \<noteq> NaN"
  proof
    assume "g = NaN"
    then have "xadd acc (xadd g (foldr xadd (take k gs) (Fin 0))) = NaN" by simp
    with nn show False by simp
  qed
  show ?case
  proof (cases k)
    case 0
    then show ?thesis using g by (simp add: xcumsum_Cons)
  next
    case (Suc j)
    then have j: "j < length gs" using Cons.prems(1) by simp
    have e: "xadd (xadd acc g) (foldr xadd (take (Suc j) gs) (Fin 0)) =
        xadd acc (xadd g (foldr xadd (take (Suc j) gs) (Fin 0)))" by (rule xadd_assoc)
    have "xadd (xadd acc g) (foldr xadd (take (Suc j) gs) (Fin 0)) \<noteq> NaN"
      unfolding e using nn Suc by simp
    from Cons.IH [OF j this] have "xcumsum (xadd acc g) gs ! j =
        xadd acc (xadd g (foldr xadd (take (Suc j) gs) (Fin 0)))" unfolding e .
    then show ?thesis using g Suc by (simp add: xcumsum_Cons)
  qed
qed

lemma xsum_as_float:
  "xsum (map (\<lambda>r. as_float (f r)) xs) = Fin (sum_list (map (\<lambda>r. fillna0 (f r)) xs))"
proof (induction xs)
  case Nil
  then show ?case by simp
next
  case (Cons x xs)
  then show ?case by (cases "f x") simp_all
qed

lemma group_tails_last:
  "group_tails df = map (\<lambda>y. Open (last (filter (\<lambda>r. year r = y) df))) (remdups (map year df))"
proof (induction df)
  case Nil
  then show ?case by simp
next
  case (Cons r rs)
  have later: "last (filter (\<lambda>x. year x = y) (r # rs)) = last (filter (\<lambda>x. year x = y) rs)"
    if "y \<in> set (map year rs)" for y
  proof -
    from that have "filter (\<lambda>x. year x = y) rs \<noteq> []" by (auto simp: filter_empty_conv)
    then show ?thesis by simp
  qed
  have tl: "map (\<lambda>y. Open (last (filter (\<lambda>x. year x = y) (r # rs)))) (remdups (map year rs)) =
      map (\<lambda>y. Open (last (filter (\<lambda>x. year x = y) rs))) (remdups (map year rs))"
    by (rule map_cong) (simp_all add: later del: filter.simps)
  show ?case
  proof (cases "year r \<in> set (map year rs)")
    case True
    then show ?thesis using Cons.IH tl by simp
  next
    case False
    then have "filter (\<lambda>x. year x = year r) rs = []"
      by (auto simp: filter_empty_conv image_iff)
    then show ?thesis using False Cons.IH tl by simp
  qed
qed

lemma group_years_sorted: "sorted (map year df) \<Longrightarrow> group_years df = remdups (map year df)"
  by (simp add: group_years_def sorted_sort_id)

lemma group_years_facts:
  "sorted (group_years df) \<and> distinct (group_years df) \<and> set (group_years df) = year ` set df"
  by (simp add: group_years_def)

lemma sorted_take_le:
  assumes s: "sorted ys" and d: "distinct ys" and k: "k < length ys" and y: "y \<in> set ys"
  shows "y \<in> set (take (Suc k) ys) \<longleftrightarrow> y \<le> (ys ! k :: int)"
proof
  assume "y \<in> set (take (Suc k) ys)"
  then obtain i where i: "i < Suc k" "i < length ys" "ys ! i = y"
    by (auto simp: in_set_conv_nth)
  then have "i \<le> k" by simp
  from sorted_nth_mono [OF s this k] i show "y \<le> ys ! k" by simp
next
  assume le: "y \<le> ys ! k"
  from y obtain i where i: "i < length ys" "ys ! i = y" by (auto simp: in_set_conv_nth)
  have "i \<le> k"
  proof (rule ccontr)
    assume "\<not> i \<le> k"
    then have ki: "k < i" by simp
    have ss: "sorted_wrt (<) ys" using s d by (simp add: strict_sorted_iff)
    from sorted_wrt_nth_less [OF ss ki i(1)] i le show False by simp
  qed
  then show "y \<in> set (take (Suc k) ys)" using i by (auto simp: in_set_conv_nth)
qed

lemma filter_years_le:
  assumes k: "k < length (group_years df)"
  shows "filter (\<lambda>r. year r \<in> set (take (Suc k) (group_years df))) df =
     filter (\<lambda>r. year r \<le> group_years df ! k) df"
proof (rule filter_cong [OF refl])
  let ?ys = "group_years df"
  have f: "sorted ?ys" "distinct ?ys" "set ?ys = year ` set df" using group_years_facts by simp_all
  fix r assume "r \<in> set df"
  then have "year r \<in> set ?ys" using f(3) by simp
  from sorted_take_le [OF f(1) f(2) k this]
  show "(year r \<in> set (take (Suc k) ?ys)) = (year r \<le> ?ys ! k)" .
qed

lemma cumulative_group_sum:
  assumes k: "k < length (group_years df)"
    and n: "xsum (map col (filter (\<lambda>r. year r \<le> group_years df ! k) df)) \<noteq> NaN"
  shows "xcumsum (Fin 0) (map (group_sum col df) (group_years df)) ! k =
     xsum (map col (filter (\<lambda>r. year r \<le> group_years df ! k) df))"
proof -
  let ?ys = "group_years df"
  let ?gs = "map (group_sum col df) ?ys"
  have d: "distinct (take (Suc k) ?ys)" using group_years_facts [of df] by simp
  have e: "foldr xadd (take (Suc k) ?gs) (Fin 0) =
      xsum (map col (filter (\<lambda>r. year r \<le> ?ys ! k) df))"
    using xsum_group_sums [OF d, of col df] filter_years_le [OF k] by (simp add: take_map)
  have kk: "k < length ?gs" using k by simp
  have "xadd (Fin 0) (foldr xadd (take (Suc k) ?gs) (Fin 0)) \<noteq> NaN" using e n by simp
  from xcumsum_nth [OF kk this] e show ?thesis by simp
qed

lemma compute_roi_lengths:
  assumes "compute_roi plan = (portfolio, invested, win, roi)"
  shows "length portfolio = length (group_years plan) \<and> length invested = length (group_years plan) \<and>
    length win = length (group_years plan) \<and> length roi = length (group_years plan)"
proof -
  have "length (group_tails plan) = length (group_years plan)"
    by (simp add: group_tails_last group_years_def)
  then show ?thesis using assms by (auto simp: compute_roi_def Let_def)
qed

lemma xdiv_zero_not_finite: "xdiv w (Fin 0) \<noteq> Fin x"
  by (cases w) simp_all

lemma ex_roi_years: "group_years ex_roi = [2019, 2020]"
  by (simp add: group_years_def ex_roi_def ex_row_def)

lemma ex_roi_eval:
  "compute_roi ex_roi =
     ([Fin 360, Fin 1200], [Fin 400, Fin 1000], [Fin (- 40), Fin 200],
      [Fin (- (1/10)), Fin (1/5)])"
proof -
  have g: "group_sum share_amount ex_roi 2019 = Fin 4" "group_sum share_amount ex_roi 2020 = Fin 8"
    "group_sum (\<lambda>r. as_float (investment_amount r)) ex_roi 2019 = Fin 400"
    "group_sum (\<lambda>r. as_float (investment_amount r)) ex_roi 2020 = Fin 600"
    by (simp_all add: group_sum_def ex_roi_def ex_row_def)
  have t: "group_tails ex_roi = [90, 100]" by (simp add: ex_roi_def ex_row_def)
  show ?thesis by (simp add: compute_roi_def ex_roi_years g t xsub_def)
qed

lemma ex_zero_open_plan:
  "finalize ex_zero_open =
     [(ex_row 1 2 0 NaN (Some 100))\<lparr>buy := True, investment_percent := Some 1,
         investment_amount := Some 100, cash := Some 0, share_amount := PInf\<rparr>,
      (ex_row 1 3 50 NaN (Some 100))\<lparr>buy := False, investment_percent := Some 0,
         investment_amount := Some 0, cash := Some 0, share_amount := Fin 0\<rparr>]"
  by (simp add: finalize_def ex_zero_open_def ex_row_def)

lemma ex_zero_open_years: "group_years (finalize ex_zero_open) = [2020]"
  by (simp add: group_years_def ex_zero_open_plan ex_row_def)

lemma ex_zero_open_eval:
  "compute_roi (finalize ex_zero_open) = ([PInf], [Fin 100], [PInf], [PInf])"
proof -
  have g: "group_sum share_amount (finalize ex_zero_open) 2020 = PInf"
    "group_sum (\<lambda>r. as_float (investment_amount r)) (finalize ex_zero_open) 2020 = Fin 100"
    by (simp_all add: group_sum_def ex_zero_open_plan ex_row_def)
  have t: "group_tails (finalize ex_zero_open) = [50]" by (simp add: ex_zero_open_plan ex_row_def)
  show ?thesis by (simp add: compute_roi_def ex_zero_open_years g t xsub_def Let_def)
qed

lemma ffill_Some_defined: "\<forall>x\<in>set (ffill (Some p) xs). x \<noteq> None"
proof (induction xs arbitrary: p)
  case Nil
  then show ?case by simp
next
  case (Cons x xs)
  then show ?case by (cases x) auto
qed

lemma assign_available_capital_rows:
  assumes d: "distinct (map Date df)"
  shows "length (assign_available_capital df ms) = length df \<and>
    (\<forall>t<length df. \<exists>c. assign_available_capital df ms ! t = (df ! t)\<lparr>capital := Some c\<rparr>)"
proof -
  let ?credit = "map (\<lambda>hit. if hit then Some ms else None) (first_flags [] df)"
  let ?cap = "ffill None (cumsum 0 ?credit)"
  have m: "merge_left df (group_first_dates [] df) = zip df (first_flags [] df)"
    using d by (rule merge_left_flags)
  have cr: "map (\<lambda>(r, hit). if hit then Some ms else None) (zip df (first_flags [] df)) = ?credit"
    by (rule nth_equalityI) simp_all
  have eq: "assign_available_capital df ms =
      map (\<lambda>((r, hit), c). r\<lparr>capital := c\<rparr>) (zip (zip df (first_flags [] df)) ?cap)"
    unfolding assign_available_capital_def m Let_def cr ..
  have len: "length (assign_available_capital df ms) = length df" unfolding eq by simp
  have def: "\<forall>x\<in>set ?cap. x \<noteq> None"
  proof (cases df)
    case Nil
    then show ?thesis by simp
  next
    case (Cons r rs)
    then show ?thesis using ffill_Some_defined by simp
  qed
  have "\<exists>c. assign_available_capital df ms ! t = (df ! t)\<lparr>capital := Some c\<rparr>"
    if t: "t < length df" for t
  proof -
    have "?cap ! t \<in> set ?cap" using t by simp
    with def obtain c where c: "?cap ! t = Some c" by fastforce
    have "assign_available_capital df ms ! t = (df ! t)\<lparr>capital := ?cap ! t\<rparr>"
      unfolding eq using t by simp
    then show ?thesis using c by auto
  qed
  then show ?thesis using len by blast
qed

lemma assign_available_capital_facts:
  assumes d: "distinct (map Date df)"
  shows "distinct (map Date (assign_available_capital df ms)) \<and>
    (\<forall>r\<in>set (assign_available_capital df ms). capital r \<noteq> None)"
proof -
  let ?c = "assign_available_capital df ms"
  from assign_available_capital_rows [OF d, of ms] have len: "length ?c = length df"
    and rows: "\<forall>t<length df. \<exists>c. ?c ! t = (df ! t)\<lparr>capital := Some c\<rparr>" by simp_all
  have "map Date ?c = map Date df"
  proof (rule nth_equalityI)
    show "length (map Date ?c) = length (map Date df)" using len by simp
  next
    fix t assume "t < length (map Date ?c)"
    then have t: "t < length df" using len by simp
    with rows obtain c where "?c ! t = (df ! t)\<lparr>capital := Some c\<rparr>" by blast
    then show "map Date ?c ! t = map Date df ! t" using t len by simp
  qed
  then have A: "distinct (map Date ?c)" using d by simp
  have B: "capital r \<noteq> None" if "r \<in> set ?c" for r
  proof -
    from that obtain t where t: "t < length ?c" "r = ?c ! t" by (auto simp: in_set_conv_nth)
    with rows len obtain c where "?c ! t = (df ! t)\<lparr>capital := Some c\<rparr>" by auto
    then show ?thesis using t by simp
  qed
  show ?thesis using A B by blast
qed

lemma planner_invariant:
  assumes r: "determine_buy_and_investment_amount df mode perc thr wd dm = Inr plan"
    and d: "distinct (map Date df)"
    and cap: "\<forall>r\<in>set df. capital r \<noteq> None"
  shows "length plan = length df \<and>
    (\<forall>t<length plan. \<exists>c a.
       capital (df ! t) = Some c \<and> capital (plan ! t) = Some c \<and>
       investment_amount (plan ! t) = Some a \<and>
       cash (plan ! t) =
         Some (c - sum_list (map (\<lambda>r. fillna0 (investment_amount r)) (take (Suc t) plan))) \<and>
       (Open (plan ! t) \<noteq> 0 \<longrightarrow>
          (\<exists>s. share_amount (plan ! t) = Fin s \<and> s * Open (plan ! t) = a \<and> (a = 0 \<longrightarrow> s = 0))))"
proof -
  from planner_cash_ok [OF r d cap] have ok: "cash_ok plan" and len: "length plan = length df"
    and capeq: "\<forall>t<length df. capital (plan ! t) = capital (df ! t)" by simp_all
  have row: "\<exists>c a.
       capital (df ! t) = Some c \<and> capital (plan ! t) = Some c \<and>
       investment_amount (plan ! t) = Some a \<and>
       cash (plan ! t) =
         Some (c - sum_list (map (\<lambda>r. fillna0 (investment_amount r)) (take (Suc t) plan))) \<and>
       (Open (plan ! t) \<noteq> 0 \<longrightarrow>
          (\<exists>s. share_amount (plan ! t) = Fin s \<and> s * Open (plan ! t) = a \<and> (a = 0 \<longrightarrow> s = 0)))"
    if t: "t < length plan" for t
  proof -
    from ok t obtain c where c: "capital (plan ! t) = Some c"
      and cs: "cash (plan ! t) = fsub (capital (plan ! t)) (Some (sum_list (map amt (take (Suc t) plan))))"
      by (auto simp: cash_ok_def)
    from planner_shares [OF r t] obtain a where a: "investment_amount (plan ! t) = Some a"
      and sh: "share_amount (plan ! t) = xdiv (Fin a) (Fin (Open (plan ! t)))" by blast
    have "capital (df ! t) = Some c" using capeq t len c by simp
    moreover have "cash (plan ! t) = Some (c - sum_list (map amt (take (Suc t) plan)))"
      using cs c by simp
    moreover have "Open (plan ! t) \<noteq> 0 \<longrightarrow>
          (\<exists>s. share_amount (plan ! t) = Fin s \<and> s * Open (plan ! t) = a \<and> (a = 0 \<longrightarrow> s = 0))"
      using sh by simp
    ultimately show ?thesis using c a by blast
  qed
  show ?thesis using len row by blast
qed

lemma compute_percent_drop_Inr_D:
  "compute_percent_drop df = Inr pdf \<Longrightarrow>
   has_moving_max df \<and>
   pdf = map (\<lambda>r. r\<lparr>percent_drop :=
                  xsub (Fin 1) (xdiv (Fin (Adj_Close r)) (as_float (moving_max r)))\<rparr>)
           (frame_rows df)"
  by (auto simp: compute_percent_drop_def split: if_splits)

lemma create_investment_plan_Inr_D:
  assumes "create_investment_plan df start ys hl mode ms perc thr wd dm = Inr plan"
  shows "\<exists>hs he pdf. get_horizon_start_end start ys hl = Inr (hs, he) \<and>
     compute_percent_drop (df\<lparr>frame_rows := slice_dates (frame_rows df) hs he\<rparr>) = Inr pdf \<and>
     determine_buy_and_investment_amount (assign_available_capital pdf ms)
       mode perc thr wd dm = Inr plan"
  using assms by (auto simp: create_investment_plan_def Let_def split: sum.splits prod.splits)

lemma pipeline_dates:
  assumes c: "compute_percent_drop (df\<lparr>frame_rows := slice_dates (frame_rows df) hs he\<rparr>) = Inr pdf"
    and d: "distinct (map Date (frame_rows df))"
  shows "distinct (map Date pdf)"
proof -
  from compute_percent_drop_Inr_D [OF c] have
    "map Date pdf = map Date (slice_dates (frame_rows df) hs he)" by (simp add: comp_def)
  then show ?thesis using d by (simp add: slice_dates_def distinct_map_filter)
qed

lemma ex_series_horizon:
  "get_horizon_start_end (2019, 1, 1) 1 1 = Inr ((2020, 1, 1), (2021, 1, 1))"
  by (simp add: get_horizon_start_end_def days_in_month_def)

lemma ex_series_slice: "slice_dates ex_series (2020, 1, 1) (2021, 1, 1) = ex_series"
  by (simp add: slice_dates_def ex_series_def an_row_def ex_row_def)

lemma ex_series_percent_drop:
  "compute_percent_drop \<lparr>has_moving_max = True, frame_rows = ex_series\<rparr> = Inr ex_series_drop"
  by (simp add: compute_percent_drop_def ex_series_def ex_series_drop_def an_row_def ex_row_def
      xsub_def)

lemma ex_series_capital: "assign_available_capital ex_series_drop 100 = ex_series_cap"
  by (simp add: assign_available_capital_def merge_left_def ex_series_drop_def ex_series_cap_def
      an_row_def ex_row_def Let_def)

lemma ex_series_monthly:
  "create_monthly_investment_plan ex_series_cap 0 = Inr ex_series_monthly_plan"
  by (simp add: create_monthly_investment_plan_def first_capital_def merge_left_def
      ex_series_cap_def ex_series_monthly_plan_def an_row_def ex_row_def Let_def)

lemma ex_series_triggers: "triggers (7/200) ex_series_monthly_plan = [1]"
  by (simp add: triggers_def ex_series_monthly_plan_def an_row_def ex_row_def upt_rec)

lemma ex_series_drop_leg:
  "create_drop_threshold_investment_plan ex_series_monthly_plan ''markettiming_strategy'' (7/200)
     (PyInt 3) (PyInt 9) = Inr ex_series_plan"
proof -
  have s: "drop_step ''markettiming_strategy'' 3 9 2 (ex_series_monthly_plan, - 3) (Suc 0)
      = Inr (ex_series_plan, 1)"
    by (simp add: drop_step_def ex_series_monthly_plan_def ex_series_plan_def an_row_def ex_row_def
        sub_cash_from_def Let_def)
  have l: "length ex_series_monthly_plan = 3" "ex_series_monthly_plan \<noteq> []"
    by (simp_all add: ex_series_monthly_plan_def)
  show ?thesis
    by (simp add: create_drop_threshold_investment_plan_def ex_series_triggers l s)
qed

lemma ex_series_planner:
  "determine_buy_and_investment_amount (assign_available_capital ex_series_drop 100)
     ''markettiming_strategy'' (9/10) (7/200) (PyInt 3) (PyInt 9) = Inr (finalize ex_series_plan)"
  by (simp add: ex_series_capital determine_buy_and_investment_amount_def modes_def
      effective_percent_def ex_series_monthly ex_series_drop_leg)

lemma ex_series_eval:
  "create_investment_plan \<lparr>has_moving_max = True, frame_rows = ex_series\<rparr> (2019, 1, 1) 1 1
     ''markettiming_strategy'' 100 (9/10) (7/200) (PyInt 3) (PyInt 9) = Inr (finalize ex_series_plan)"
  by (simp add: create_investment_plan_def ex_series_horizon ex_series_slice
      ex_series_percent_drop ex_series_planner)

lemma ex_series_final:
  "finalize ex_series_plan =
     [(an_row 2 100 100 (Fin 0) (Some 100))\<lparr>buy := False, investment_percent := Some 0,
         investment_amount := Some 0, cash := Some 100, share_amount := Fin 0\<rparr>,
      (an_row 3 90 100 (Fin (1/10)) (Some 100))\<lparr>buy := False, investment_percent := Some 0,
         investment_amount := Some 0, cash := Some 100, share_amount := Fin 0\<rparr>,
      (an_row 6 95 95 (Fin 0) (Some 100))\<lparr>buy := True, investment_percent := Some (9/10),
         investment_amount := Some 90, cash := Some 10, share_amount := Fin (18/19)\<rparr>]"
  by (simp add: finalize_def ex_series_plan_def an_row_def ex_row_def)

lemma planner_invariant_capitalized:
  assumes d: "distinct (map Date df)"
    and r: "determine_buy_and_investment_amount (assign_available_capital df ms) mode perc thr wd dm
      = Inr plan"
  shows "length plan = length df \<and>
    (\<forall>t<length plan. \<exists>c a.
       capital (assign_available_capital df ms ! t) = Some c \<and> capital (plan ! t) = Some c \<and>
       investment_amount (plan ! t) = Some a \<and>
       cash (plan ! t) =
         Some (c - sum_list (map (\<lambda>r. fillna0 (investment_amount r)) (take (Suc t) plan))) \<and>
       (Open (plan ! t) \<noteq> 0 \<longrightarrow>
          (\<exists>s. share_amount (plan ! t) = Fin s \<and> s * Open (plan ! t) = a \<and> (a = 0 \<longrightarrow> s = 0))))"
proof -
  from assign_available_capital_facts [OF d, of ms] have
    dc: "distinct (map Date (assign_available_capital df ms))" and
    cap: "\<forall>r\<in>set (assign_available_capital df ms). capital r \<noteq> None" by simp_all
  from assign_available_capital_rows [OF d, of ms] have
    len: "length (assign_available_capital df ms) = length df" by simp
  from planner_invariant [OF r dc cap] len show ?thesis by simp
qed

lemma merge_left_fst: "fst ` set (merge_left df right) \<subseteq> set df"
proof (induction df)
  case Nil
  then show ?case by simp
next
  case (Cons r rs)
  have "fst ` set (case filter (\<lambda>d. d = Date r) right of [] \<Rightarrow> [(r, False)]
      | ms \<Rightarrow> map (\<lambda>_. (r, True)) ms) \<subseteq> {r}"
    by (auto split: list.splits)
  then show ?case using Cons by (auto simp: merge_left_Cons)
qed

lemma core_assign_available_capital:
  "core ` set (assign_available_capital df ms) \<subseteq> core ` set df"
proof
  fix x assume "x \<in> core ` set (assign_available_capital df ms)"
  then obtain r hit c where "(r, hit) \<in> set (merge_left df (group_first_dates [] df))"
    and x: "x = core (r\<lparr>capital := c\<rparr>)"
    by (auto simp: assign_available_capital_def Let_def dest!: set_zip_leftD)
  then have "r \<in> set df" using merge_left_fst [of df "group_first_dates [] df"] by force
  then show "x \<in> core ` set df" using x by (auto simp: core_def image_iff)
qed

lemma core_create_monthly:
  assumes "create_monthly_investment_plan df perc = Inr mp"
  shows "core ` set mp \<subseteq> core ` set df"
proof
  fix x assume x: "x \<in> core ` set mp"
  from assms obtain c0 where mp: "mp = map (\<lambda>(r, c). r\<lparr>cash := fsub (capital r) c\<rparr>)
      (zip (map (\<lambda>(r, hit).
                        if hit
                        then r\<lparr>buy := perc > 0,
                               investment_percent := Some perc,
                               investment_amount := Some (c0 * perc)\<rparr>
                        else r\<lparr>buy := False,
                               investment_percent := Some 0,
                               investment_amount := Some 0\<rparr>) (merge_left df (group_first_dates [] df)))
        (cumsum 0 (map investment_amount (map (\<lambda>(r, hit).
                        if hit
                        then r\<lparr>buy := perc > 0,
                               investment_percent := Some perc,
                               investment_amount := Some (c0 * perc)\<rparr>
                        else r\<lparr>buy := False,
                               investment_percent := Some 0,
                               investment_amount := Some 0\<rparr>) (merge_left df (group_first_dates [] df))))))"
    by (auto simp: create_monthly_investment_plan_def Let_def split: if_splits sum.splits)
  from x obtain r hit c where "(r, hit) \<in> set (merge_left df (group_first_dates [] df))"
    and xx: "x = core ((if hit
                        then r\<lparr>buy := perc > 0,
                               investment_percent := Some perc,
                               investment_amount := Some (c0 * perc)\<rparr>
                        else r\<lparr>buy := False,
                               investment_percent := Some 0,
                               investment_amount := Some 0\<rparr>)\<lparr>cash := c\<rparr>)"
    unfolding mp by (auto dest!: set_zip_leftD split: if_splits)
  then have "r \<in> set df" using merge_left_fst [of df "group_first_dates [] df"] by force
  then show "x \<in> core ` set df" using xx by (auto simp: core_def image_iff)
qed

lemma core_base: "core (base r) = core r"
  by (simp add: core_def base_def)

lemma base_core: "map base df' = map base df \<Longrightarrow> map core df' = map core df"
proof -
  assume "map base df' = map base df"
  then have "map core (map base df') = map core (map base df)" by simp
  then show ?thesis by (simp add: comp_def core_base)
qed

lemma create_drop_base:
  assumes r: "create_drop_threshold_investment_plan df mode thr wd dm = Inr plan"
  shows "map base plan = map base df"
proof -
  from create_drop_Inr_D [OF r] obtain lb where ne: "df \<noteq> []"
    and loop: "drop_loop mode (int_of wd) (int_of dm) (length df - 1) (triggers thr df)
       (df, - int_of wd) = Inr (plan, lb)" by blast
  have li: "Suc (length df - 1) = length df" using ne by simp
  show ?thesis using drop_loop_base [OF loop _ li] triggers_facts [of thr df] by simp
qed

lemma core_finalize: "map core (finalize df) = map core df"
  by (simp add: finalize_def core_def comp_def)

lemma core_determine_buy:
  assumes r: "determine_buy_and_investment_amount df mode perc thr wd dm = Inr plan"
  shows "core ` set plan \<subseteq> core ` set df"
proof -
  from determine_buy_Inr_D [OF r] obtain mp where
    mp: "create_monthly_investment_plan df (effective_percent mode perc) = Inr mp" and
    pl: "if effective_percent mode perc = 1 then plan = finalize mp
         else \<exists>p2. create_drop_threshold_investment_plan mp mode thr wd dm = Inr p2 \<and>
               plan = finalize p2"
    by blast
  have "map core plan = map core mp"
  proof (cases "effective_percent mode perc = 1")
    case True
    then show ?thesis using pl by (simp add: core_finalize)
  next
    case False
    with pl obtain p2 where p2: "create_drop_threshold_investment_plan mp mode thr wd dm = Inr p2"
      and fin: "plan = finalize p2" by auto
    show ?thesis using base_core [OF create_drop_base [OF p2]] fin by (simp add: core_finalize)
  qed
  then have "core ` set plan = core ` set mp" by (metis set_map)
  then show ?thesis using core_create_monthly [OF mp] by simp
qed

lemma core_pipeline:
  assumes "create_investment_plan df start ys hl mode ms perc thr wd dm = Inr plan"
    and r: "r \<in> set plan"
  shows "has_moving_max df \<and>
    (\<exists>r0\<in>set (frame_rows df). Date r0 = Date r \<and> High r0 = High r \<and>
       Adj_Close r0 = Adj_Close r \<and> moving_max r0 = moving_max r \<and>
       percent_drop r = xsub (Fin 1) (xdiv (Fin (Adj_Close r0)) (as_float (moving_max r0))))"
proof -
  from create_investment_plan_Inr_D [OF assms(1)] obtain hs he pdf where
    c: "compute_percent_drop (df\<lparr>frame_rows := slice_dates (frame_rows df) hs he\<rparr>) = Inr pdf" and
    d: "determine_buy_and_investment_amount (assign_available_capital pdf ms)
       mode perc thr wd dm = Inr plan" by blast
  from compute_percent_drop_Inr_D [OF c] have h: "has_moving_max df"
    and pdf: "pdf = map (\<lambda>r. r\<lparr>percent_drop :=
                  xsub (Fin 1) (xdiv (Fin (Adj_Close r)) (as_float (moving_max r)))\<rparr>)
           (slice_dates (frame_rows df) hs he)" by simp_all
  have "core r \<in> core ` set pdf"
    using core_determine_buy [OF d] core_assign_available_capital r by blast
  then obtain r0 where r0: "r0 \<in> set (slice_dates (frame_rows df) hs he)"
    and c: "core r = core (r0\<lparr>percent_drop :=
        xsub (Fin 1) (xdiv (Fin (Adj_Close r0)) (as_float (moving_max r0)))\<rparr>)"
    unfolding pdf by auto
  have "r0 \<in> set (frame_rows df)" using r0 by (simp add: slice_dates_def)
  then show ?thesis using c h by (auto simp: core_def)
qed

lemma create_investment_plan_no_column:
  assumes "\<not> has_moving_max df"
  shows "create_investment_plan df start ys hl mode ms perc thr wd dm =
     (case get_horizon_start_end start ys hl of Inl e \<Rightarrow> Inl e | Inr h \<Rightarrow> Inl AttributeError)"
  using assms
  by (auto simp: create_investment_plan_def compute_percent_drop_def Let_def
      split: sum.splits prod.splits)

section \<open>The claims\<close>

text \<open>
  Claim C1. In hybrid mode a drawdown trigger whose execution day already has \<open>buy = True\<close>
  from the monthly leg is skipped. In the plan of the planner, every first trading day of a
  month (with a positive monthly percentage) is a buy day that carries exactly the monthly-leg
  investment: \<open>investment_percent = perc_monthly_invest\<close> and
  \<open>investment_amount = first capital * perc_monthly_invest\<close>, whatever the drawdown leg did.
  A pass of the loop body on such a trigger returns the state as it was: the frame and
  \<open>last_buy\<close> are unchanged, so the skip consumes no waiting-period slot.
\<close>

theorem hybrid_monthly_day_keeps_monthly_investment:
  assumes r: "determine_buy_and_investment_amount df ''hybrid_strategy'' perc thr wd dm = Inr plan"
    and d: "distinct (map Date df)"
  shows "length plan = length df \<and>
    (\<exists>c0. first_capital df = Inr c0 \<and>
       (\<forall>t<length df. month_first df t \<and> perc > 0 \<longrightarrow>
          buy (plan ! t) \<and> investment_percent (plan ! t) = Some perc \<and>
          investment_amount (plan ! t) = Some (c0 * perc))) \<and>
    (\<forall>st i w m li. i + 1 < length (fst st) \<and> buy (fst st ! (i + 1)) \<longrightarrow>
       drop_step ''hybrid_strategy'' w m li st i = Inr st)"
proof -
  have ep: "effective_percent ''hybrid_strategy'' perc = perc" by (simp add: effective_percent_def)
  from determine_buy_Inr_D [OF r] obtain mp where
    mp: "create_monthly_investment_plan df perc = Inr mp" and
    pl: "if perc = 1 then plan = finalize mp
         else \<exists>p2. create_drop_threshold_investment_plan mp ''hybrid_strategy'' thr wd dm = Inr p2 \<and>
               plan = finalize p2"
    unfolding ep by blast
  from monthly_plan_rows [OF mp d] obtain c0 where len: "length mp = length df"
    and c: "first_capital df = Inr c0"
    and rows: "\<forall>t<length df. mp ! t = (df ! t)
        \<lparr>buy := month_first df t \<and> perc > 0,
         investment_percent := Some (if month_first df t then perc else 0),
         investment_amount := Some (monthly_amounts df (c0 * perc) ! t),
         cash := fsub (capital (df ! t)) (Some (sum_list (take (Suc t) (monthly_amounts df (c0 * perc)))))\<rparr>"
    by blast
  obtain p2 where p2len: "length p2 = length mp" and fin: "plan = finalize p2"
    and keep: "\<forall>t<length mp. buy (mp ! t) \<longrightarrow> buy (p2 ! t) \<and>
        investment_percent (p2 ! t) = investment_percent (mp ! t) \<and>
        investment_amount (p2 ! t) = investment_amount (mp ! t)"
  proof (cases "perc = 1")
    case True
    with pl have "plan = finalize mp" by simp
    then show ?thesis using that [of mp] by simp
  next
    case False
    with pl obtain q where q: "create_drop_threshold_investment_plan mp ''hybrid_strategy'' thr wd dm = Inr q"
      and pq: "plan = finalize q" by auto
    show ?thesis
      using that [of q] create_drop_length [OF q] pq create_drop_keeps_monthly [OF q] by blast
  qed
  have A: "length plan = length df" using fin p2len len by simp
  have B: "buy (plan ! t) \<and> investment_percent (plan ! t) = Some perc \<and>
          investment_amount (plan ! t) = Some (c0 * perc)"
    if t: "t < length df" and mf: "month_first df t \<and> perc > 0" for t
  proof -
    have m: "buy (mp ! t)" "investment_percent (mp ! t) = Some perc"
      "investment_amount (mp ! t) = Some (c0 * perc)"
      using rows t mf by (simp_all add: nth_monthly_amounts)
    have "buy (p2 ! t) \<and> investment_percent (p2 ! t) = Some perc \<and>
        investment_amount (p2 ! t) = Some (c0 * perc)"
      using keep t len m by simp
    then show ?thesis using fin t len p2len by (simp add: nth_finalize)
  qed
  have C: "drop_step ''hybrid_strategy'' w m li st i = Inr st"
    if "i + 1 < length (fst st) \<and> buy (fst st ! (i + 1))" for st :: "frame \<times> int" and i w m li
    using that by (cases st) (simp add: drop_step_def Let_def)
  show ?thesis using A B C c by blast
qed

theorem hybrid_monthly_day_keeps_monthly_investment_witness:
  "determine_buy_and_investment_amount ex_hybrid ''hybrid_strategy'' (1/2) (1/20) (PyInt 1) (PyInt 2)
     = Inr (finalize ex_hybrid_drop_plan) \<and>
   distinct (map Date ex_hybrid) \<and> month_first ex_hybrid 2 \<and>
   first_capital ex_hybrid = Inr 100 \<and>
   buy (finalize ex_hybrid_drop_plan ! 2) \<and>
   investment_percent (finalize ex_hybrid_drop_plan ! 2) = Some (1/2) \<and>
   investment_amount (finalize ex_hybrid_drop_plan ! 2) = Some 50 \<and>
   buy (ex_hybrid_monthly_plan ! (1 + 1)) \<and>
   drop_step ''hybrid_strategy'' 1 2 3 (ex_hybrid_monthly_plan, - 1) 1
     = Inr (ex_hybrid_monthly_plan, - 1)"
proof -
  have d: "distinct (map Date ex_hybrid)" by (simp add: ex_hybrid_def ex_row_def)
  have mf: "month_first ex_hybrid 2" by (simp add: month_first_def ex_hybrid_def ex_row_def)
  have c: "first_capital ex_hybrid = Inr 100" by (simp add: first_capital_def ex_hybrid_def ex_row_def)
  have b: "(1::nat) + 1 < length (fst (ex_hybrid_monthly_plan, - 1 :: int)) \<and>
      buy (fst (ex_hybrid_monthly_plan, - 1 :: int) ! (1 + 1))"
    by (simp add: ex_hybrid_monthly_plan_def ex_row_def)
  note t = hybrid_monthly_day_keeps_monthly_investment [OF ex_hybrid_eval d]
  from t c have "\<forall>t<length ex_hybrid. month_first ex_hybrid t \<and> (1/2 :: real) > 0 \<longrightarrow>
          buy (finalize ex_hybrid_drop_plan ! t) \<and>
          investment_percent (finalize ex_hybrid_drop_plan ! t) = Some (1/2) \<and>
          investment_amount (finalize ex_hybrid_drop_plan ! t) = Some (100 * (1/2))" by auto
  then have r2: "buy (finalize ex_hybrid_drop_plan ! 2) \<and>
          investment_percent (finalize ex_hybrid_drop_plan ! 2) = Some (1/2) \<and>
          investment_amount (finalize ex_hybrid_drop_plan ! 2) = Some 50"
    using mf by (simp add: ex_hybrid_def)
  from t b have "drop_step ''hybrid_strategy'' 1 2 3 (ex_hybrid_monthly_plan, - 1) 1
     = Inr (ex_hybrid_monthly_plan, - 1)" by blast
  with ex_hybrid_eval d mf c r2 b show ?thesis by simp
qed

text \<open>
  Claim C2. The executed triggers of a run of the drawdown leg, started with
  \<open>last_buy = - waiting_days\<close>, are pairwise at least \<open>waiting_days\<close> apart, measured from
  trigger index to trigger index. A pass of the loop body on a trigger inside the waiting
  window returns the state unchanged, so the window is neither shortened nor extended; a pass
  changes the state only if \<open>row_idx - last_buy \<ge> waiting_days\<close>, and then \<open>last_buy\<close> becomes the
  trigger index (not the execution index). When no row had \<open>buy\<close> set before the leg ran, any
  two buy days of the resulting plan are at least \<open>waiting_days\<close> apart.
\<close>

theorem drawdown_waiting_window:
  "sorted_wrt (\<lambda>a b. a < b \<and> int_of wd \<le> int b - int a)
     (executed_triggers mode (int_of wd) (int_of dm) (length df - 1) (triggers thr df)
        (df, - int_of wd)) \<and>
   (\<forall>st i w m li. int i - snd st < w \<longrightarrow> drop_step mode w m li st i = Inr st) \<and>
   (\<forall>st st' i w m li. drop_step mode w m li st i = Inr st' \<and> st' \<noteq> st \<longrightarrow>
      w \<le> int i - snd st \<and> snd st' = int i) \<and>
   (\<forall>plan. create_drop_threshold_investment_plan df mode thr wd dm = Inr plan \<and>
      (\<forall>r\<in>set df. \<not> buy r) \<longrightarrow>
      (\<forall>d1 d2. d1 < d2 \<and> d2 < length plan \<and> buy (plan ! d1) \<and> buy (plan ! d2) \<longrightarrow>
         int_of wd \<le> int d2 - int d1))"
proof -
  let ?w = "int_of wd"
  let ?ex = "executed_triggers mode ?w (int_of dm) (length df - 1) (triggers thr df) (df, - ?w)"
  have tr: "sorted_wrt (<) (triggers thr df)" "\<forall>i\<in>set (triggers thr df). i < length df"
    using triggers_facts [of thr df] by simp_all
  have A: "sorted_wrt (\<lambda>a b. a < b \<and> ?w \<le> int b - int a) ?ex"
  proof (cases "df = []")
    case True
    then show ?thesis by (simp add: triggers_def)
  next
    case False
    then have "Suc (length df - 1) = length df" by simp
    from executed_triggers_spacing [OF tr this] show ?thesis by blast
  qed
  have B: "drop_step mode w m li st i = Inr st" if "int i - snd st < w"
    for st :: "frame \<times> int" and i w m li
    using that by (cases st) (simp add: drop_step_def Let_def)
  have C: "w \<le> int i - snd st \<and> snd st' = int i"
    if "drop_step mode w m li st i = Inr st' \<and> st' \<noteq> st"
    for st st' :: "frame \<times> int" and i w m li
    using that by (cases st) (auto simp: drop_step_def Let_def split: if_splits)
  have D: "?w \<le> int d2 - int d1"
    if r: "create_drop_threshold_investment_plan df mode thr wd dm = Inr plan"
      and nb: "\<forall>r\<in>set df. \<not> buy r"
      and dd: "d1 < d2" "d2 < length plan" "buy (plan ! d1)" "buy (plan ! d2)" for plan d1 d2
  proof -
    from create_drop_Inr_D [OF r] obtain lb where ne: "df \<noteq> []"
      and loop: "drop_loop mode ?w (int_of dm) (length df - 1) (triggers thr df)
         (df, - ?w) = Inr (plan, lb)" by blast
    have li: "Suc (length df - 1) = length df" using ne by simp
    have len: "length plan = length df" using r by (rule create_drop_length)
    have d2: "d2 < length df" and d1: "d1 < length df" using dd len by simp_all
    from drop_loop_buy_origin [OF loop tr(2) li d1 dd(3)] nb d1
    obtain i where i: "i \<in> set ?ex" "d1 = i + 1" by auto
    from drop_loop_buy_origin [OF loop tr(2) li d2 dd(4)] nb d2
    obtain j where j: "j \<in> set ?ex" "d2 = j + 1" by auto
    have "i < j" using dd(1) i j by simp
    from spaced_pairs [OF A i(1) j(1) this] i j show ?thesis by simp
  qed
  show ?thesis using A B C D by blast
qed

theorem drawdown_waiting_window_witness:
  "executed_triggers ''markettiming_strategy'' 3 2 5 (triggers (1/20) ex_mt) (ex_mt, - 3) = [0, 3] \<and>
   sorted_wrt (\<lambda>a b. a < b \<and> (3::int) \<le> int b - int a) [0, 3] \<and>
   int 2 - snd (ex_mt_mid, 0::int) < 3 \<and>
   drop_step ''markettiming_strategy'' 3 2 5 (ex_mt_mid, 0) 2 = Inr (ex_mt_mid, 0) \<and>
   drop_step ''markettiming_strategy'' 3 2 5 (ex_mt_mid, 0) 3 = Inr (ex_mt_plan, 3) \<and>
   (ex_mt_plan, 3::int) \<noteq> (ex_mt_mid, 0) \<and>
   (3::int) \<le> int 3 - snd (ex_mt_mid, 0::int) \<and> snd (ex_mt_plan, 3::int) = int 3 \<and>
   create_drop_threshold_investment_plan ex_mt ''markettiming_strategy'' (1/20) (PyInt 3) (PyInt 2)
     = Inr ex_mt_plan \<and>
   list_all (\<lambda>r. \<not> buy r) ex_mt \<and>
   (1::nat) < 4 \<and> 4 < length ex_mt_plan \<and> buy (ex_mt_plan ! 1) \<and> buy (ex_mt_plan ! 4) \<and>
   int_of (PyInt 3) \<le> int 4 - int 1"
proof -
  note t = drawdown_waiting_window [of "PyInt 3" "''markettiming_strategy''" "PyInt 2" ex_mt "1/20"]
  have nb: "\<forall>r\<in>set ex_mt. \<not> buy r" by (simp add: ex_mt_def mt_row_def ex_row_def)
  have b: "(1::nat) < 4 \<and> 4 < length ex_mt_plan \<and> buy (ex_mt_plan ! 1) \<and> buy (ex_mt_plan ! 4)"
    by (simp add: ex_mt_plan_def mt_row_def ex_row_def)
  have ne: "(ex_mt_plan, 3::int) \<noteq> (ex_mt_mid, 0)" by simp
  have lt: "int 2 - snd (ex_mt_mid, 0::int) < 3" by simp
  from t have s: "sorted_wrt (\<lambda>a b. a < b \<and> (3::int) \<le> int b - int a) [0, 3]"
    using ex_mt_executed by (simp add: ex_mt_length)
  from t lt have d1: "drop_step ''markettiming_strategy'' 3 2 5 (ex_mt_mid, 0) 2 = Inr (ex_mt_mid, 0)"
    by blast
  from t ex_mt_steps(4) ne have d2: "(3::int) \<le> int 3 - snd (ex_mt_mid, 0::int) \<and>
      snd (ex_mt_plan, 3::int) = int 3" by blast
  from t ex_mt_eval nb b have d3: "int_of (PyInt 3) \<le> int 4 - int 1" by blast
  show ?thesis using ex_mt_executed s lt d1 ex_mt_steps(4) ne d2 ex_mt_eval nb b d3
    by (simp add: list_all_iff)
qed

text \<open>
  Claim C3. Let trigger \<open>i\<close> (a row with \<open>percent_drop \<ge> perc_drop_threshold\<close>) be reached in the
  state \<open>(dfi, lb)\<close>, that is after the loop has passed the triggers before it, and let it be
  eligible there: the waiting window has elapsed, \<open>i\<close> is not the last index, and the trigger is
  not suppressed in hybrid mode. Then the buy is executed on row \<open>i + 1\<close>: in the plan that row
  has \<open>buy = True\<close>, \<open>investment_percent = min 1 (percent_drop i * drop_multiplier)\<close> (the
  percent drop of a trigger is a finite number \<open>p \<ge> perc_drop_threshold\<close>, or \<open>+inf\<close>, where the
  minimum is 1),
  \<open>investment_amount = cash (i + 1) * investment_percent\<close> with the cash of the state before the
  subtraction, and the pass of the loop body subtracts that amount from the cash of row
  \<open>i + 1\<close> and of every later row and leaves the cash of the earlier rows. A pass on the last
  index returns the state unchanged, and with valid parameters on a non-empty frame the leg
  returns a plan (no error).
\<close>

theorem drawdown_buy_execution:
  "(triggers thr df = pre @ i # post \<and>
    drop_loop mode (int_of wd) (int_of dm) (length df - 1) pre (df, - int_of wd) = Inr (dfi, lb) \<and>
    int_of wd \<le> int i - lb \<and> i \<noteq> length df - 1 \<and>
    \<not> (mode = ''hybrid_strategy'' \<and> buy (dfi ! (i + 1))) \<and>
    create_drop_threshold_investment_plan df mode thr wd dm = Inr plan \<longrightarrow>
    (\<exists>q. ((\<exists>p. percent_drop (df ! i) = Fin p \<and> thr \<le> p \<and>
              q = min 1 (p * real_of_int (int_of dm))) \<or>
           (percent_drop (df ! i) = PInf \<and> q = 1)) \<and>
       i + 1 < length plan \<and> buy (plan ! (i + 1)) \<and>
       investment_percent (plan ! (i + 1)) = Some q \<and>
       investment_amount (plan ! (i + 1)) = fmul (cash (dfi ! (i + 1))) (Some q) \<and>
       cash (plan ! (i + 1)) = fsub (cash (dfi ! (i + 1))) (investment_amount (plan ! (i + 1))) \<and>
       (\<exists>dfi'. drop_step mode (int_of wd) (int_of dm) (length df - 1) (dfi, lb) i = Inr (dfi', int i) \<and>
          (\<forall>j<length df. cash (dfi' ! j) =
             (if i + 1 \<le> j then fsub (cash (dfi ! j)) (investment_amount (plan ! (i + 1)))
              else cash (dfi ! j)))))) \<and>
   (\<forall>st w m. drop_step mode w m (length df - 1) st (length df - 1) = Inr st) \<and>
   (0 \<le> thr \<and> thr \<le> 1 \<and> 1 \<le> num_val wd \<and> is_int wd \<and> 1 \<le> num_val dm \<and> is_int dm \<and> df \<noteq> [] \<longrightarrow>
    (\<exists>plan. create_drop_threshold_investment_plan df mode thr wd dm = Inr plan \<and>
       length plan = length df))"
proof -
  let ?w = "int_of wd" and ?m = "int_of dm" and ?li = "length df - 1"
  have A: "\<exists>q. ((\<exists>p. percent_drop (df ! i) = Fin p \<and> thr \<le> p \<and>
              q = min 1 (p * real_of_int ?m)) \<or>
           (percent_drop (df ! i) = PInf \<and> q = 1)) \<and>
       i + 1 < length plan \<and> buy (plan ! (i + 1)) \<and>
       investment_percent (plan ! (i + 1)) = Some q \<and>
       investment_amount (plan ! (i + 1)) = fmul (cash (dfi ! (i + 1))) (Some q) \<and>
       cash (plan ! (i + 1)) = fsub (cash (dfi ! (i + 1))) (investment_amount (plan ! (i + 1))) \<and>
       (\<exists>dfi'. drop_step mode ?w ?m ?li (dfi, lb) i = Inr (dfi', int i) \<and>
          (\<forall>j<length df. cash (dfi' ! j) =
             (if i + 1 \<le> j then fsub (cash (dfi ! j)) (investment_amount (plan ! (i + 1)))
              else cash (dfi ! j))))"
    if tr: "triggers thr df = pre @ i # post"
      and before: "drop_loop mode ?w ?m ?li pre (df, - ?w) = Inr (dfi, lb)"
      and win: "?w \<le> int i - lb" and notlast: "i \<noteq> ?li"
      and nosupp: "\<not> (mode = ''hybrid_strategy'' \<and> buy (dfi ! (i + 1)))"
      and res: "create_drop_threshold_investment_plan df mode thr wd dm = Inr plan"
  proof -
    have tf: "sorted_wrt (<) (pre @ i # post)"
      "\<forall>k\<in>set (pre @ i # post). k < length df \<and> fge (percent_drop (df ! k)) thr"
      using triggers_facts [of thr df] unfolding tr by simp_all
    have i: "i < length df" using tf(2) by simp
    have g: "fge (percent_drop (df ! i)) thr" using tf(2) by simp
    have dm1: "1 \<le> ?m" using create_drop_Inr_valid [OF res] by simp
    define q where "q = (case percent_drop (df ! i) of Fin p \<Rightarrow> min 1 (p * real_of_int ?m) | _ \<Rightarrow> 1)"
    have pq: "fminimum 1 (xmul (percent_drop (df ! i)) (Fin (real_of_int ?m))) = Some q"
      unfolding q_def using g dm1 by (rule fminimum_trigger)
    have p: "(\<exists>p. percent_drop (df ! i) = Fin p \<and> thr \<le> p \<and> q = min 1 (p * real_of_int ?m)) \<or>
        (percent_drop (df ! i) = PInf \<and> q = 1)"
      using fge_cases [OF g] by (auto simp: q_def)
    have li: "Suc ?li = length df" using i by simp
    have pre: "\<forall>k\<in>set pre. k < length df" using tf(2) by simp
    have bdfi: "map base dfi = map base df" using drop_loop_base [OF before pre li] .
    have ldfi: "length dfi = length df" using bdfi length_map by metis
    have pdi: "fminimum 1 (xmul (percent_drop (dfi ! i)) (Fin (real_of_int ?m))) = Some q"
      using base_percent_drop [OF bdfi i] pq by simp
    have ex: "executes mode ?w ?li (dfi, lb) i" using win notlast nosupp by (simp add: executes_def)
    have li': "Suc ?li = length dfi" using li ldfi by simp
    have i': "i < length dfi" using i ldfi by simp
    have nx: "i + 1 < length dfi" using ex i' li' by (rule executes_next_in_range)
    let ?dfi' = "buy_row ?m dfi i"
    have step: "drop_step mode ?w ?m ?li (dfi, lb) i = Inr (?dfi', int i)"
      using ex nx by (rule drop_step_executes)
    from create_drop_Inr_D [OF res] obtain lb' where
      loop: "drop_loop mode ?w ?m ?li (pre @ i # post) (df, - ?w) = Inr (plan, lb')"
      unfolding tr by blast
    have rest: "drop_loop mode ?w ?m ?li post (?dfi', int i) = Inr (plan, lb')"
      using loop before step by (simp add: drop_loop_append)
    have post: "\<forall>j\<in>set post. j < length ?dfi' \<and> i + 1 \<le> j"
      using tf ldfi by (auto simp: sorted_wrt_append)
    have row: "plan ! (i + 1) = ?dfi' ! (i + 1)"
      using drop_loop_rows_below [OF rest post] li' nx by simp
    have lplan: "length plan = length df" using res by (rule create_drop_length)
    let ?amt = "fmul (cash (dfi ! (i + 1))) (Some q)"
    have r1: "?dfi' ! (i + 1) = (dfi ! (i + 1))\<lparr>buy := True, investment_percent := Some q,
        investment_amount := ?amt, cash := fsub (cash (dfi ! (i + 1))) ?amt\<rparr>"
      using nx pdi by (simp add: nth_buy_row Let_def)
    have cashes: "\<forall>j<length df. cash (?dfi' ! j) =
        (if i + 1 \<le> j then fsub (cash (dfi ! j)) ?amt else cash (dfi ! j))"
      using nx pdi ldfi by (auto simp: nth_buy_row Let_def)
    have amt: "investment_amount (plan ! (i + 1)) = ?amt" using row r1 by simp
    show ?thesis
      using p nx ldfi lplan row r1 step cashes amt by auto
  qed
  have B: "drop_step mode w m ?li st ?li = Inr st" for st :: "frame \<times> int" and w m
    by (cases st) (simp add: drop_step_def Let_def)
  have C: "\<exists>plan. create_drop_threshold_investment_plan df mode thr wd dm = Inr plan \<and>
       length plan = length df"
    if "0 \<le> thr \<and> thr \<le> 1 \<and> 1 \<le> num_val wd \<and> is_int wd \<and> 1 \<le> num_val dm \<and> is_int dm \<and> df \<noteq> []"
    using that create_drop_total by blast
  show ?thesis using A B C by blast
qed

theorem drawdown_buy_execution_witness:
  "triggers (1/20) ex_mt = [0, 1, 2] @ 3 # [4, 5] \<and>
   drop_loop ''markettiming_strategy'' 3 2 5 [0, 1, 2] (ex_mt, - 3) = Inr (ex_mt_mid, 0) \<and>
   (3::int) \<le> int 3 - 0 \<and> (3::nat) \<noteq> length ex_mt - 1 \<and>
   \<not> (''markettiming_strategy'' = ''hybrid_strategy'' \<and> buy (ex_mt_mid ! (3 + 1))) \<and>
   create_drop_threshold_investment_plan ex_mt ''markettiming_strategy'' (1/20) (PyInt 3) (PyInt 2)
     = Inr ex_mt_plan \<and>
   percent_drop (ex_mt ! 3) = Fin (1/10) \<and> buy (ex_mt_plan ! (3 + 1)) \<and>
   investment_percent (ex_mt_plan ! (3 + 1)) = Some (1/5) \<and>
   investment_amount (ex_mt_plan ! (3 + 1)) = Some 16 \<and>
   cash (ex_mt_plan ! (3 + 1)) = Some 64 \<and>
   drop_step ''markettiming_strategy'' 3 2 (length ex_mt - 1) (ex_mt_plan, 3) (length ex_mt - 1)
     = Inr (ex_mt_plan, 3) \<and>
   (\<exists>plan. create_drop_threshold_investment_plan ex_mt ''markettiming_strategy'' (1/20)
       (PyInt 3) (PyInt 2) = Inr plan \<and> length plan = length ex_mt)"
proof -
  note t = drawdown_buy_execution [where thr = "1/20" and df = ex_mt and pre = "[0, 1, 2]"
      and i = 3 and post = "[4, 5]" and mode = "''markettiming_strategy''" and wd = "PyInt 3"
      and dm = "PyInt 2" and dfi = ex_mt_mid and lb = 0 and plan = ex_mt_plan]
  have h1: "triggers (1/20) ex_mt = [0, 1, 2] @ 3 # [4, 5]" by (simp add: ex_mt_triggers)
  have h2: "drop_loop ''markettiming_strategy'' 3 2 5 [0, 1, 2] (ex_mt, - 3) = Inr (ex_mt_mid, 0)"
    by (simp add: ex_mt_steps)
  have h3: "(3::int) \<le> int 3 - 0 \<and> (3::nat) \<noteq> length ex_mt - 1 \<and>
      \<not> (''markettiming_strategy'' = ''hybrid_strategy'' \<and> buy (ex_mt_mid ! (3 + 1)))"
    by (simp add: ex_mt_length)
  have pd: "percent_drop (ex_mt ! 3) = Fin (1/10)" by (simp add: ex_mt_def mt_row_def ex_row_def)
  have c: "cash (ex_mt_mid ! (3 + 1)) = Some 80" by (simp add: ex_mt_mid_def mt_row_def ex_row_def)
  have valid: "(0::real) \<le> 1/20 \<and> (1/20::real) \<le> 1 \<and> 1 \<le> num_val (PyInt 3) \<and> is_int (PyInt 3) \<and>
      1 \<le> num_val (PyInt 2) \<and> is_int (PyInt 2) \<and> ex_mt \<noteq> []" by (simp add: ex_mt_length)
  from t h1 h2 h3 ex_mt_eval have
    "\<exists>q. ((\<exists>p. percent_drop (ex_mt ! 3) = Fin p \<and>
              q = min 1 (p * real_of_int (int_of (PyInt 2)))) \<or>
           (percent_drop (ex_mt ! 3) = PInf \<and> q = 1)) \<and>
       buy (ex_mt_plan ! (3 + 1)) \<and>
       investment_percent (ex_mt_plan ! (3 + 1)) = Some q \<and>
       investment_amount (ex_mt_plan ! (3 + 1)) = fmul (cash (ex_mt_mid ! (3 + 1))) (Some q) \<and>
       cash (ex_mt_plan ! (3 + 1)) =
         fsub (cash (ex_mt_mid ! (3 + 1))) (investment_amount (ex_mt_plan ! (3 + 1)))"
    by (simp add: ex_mt_length) blast
  then have vals: "buy (ex_mt_plan ! (3 + 1)) \<and>
      investment_percent (ex_mt_plan ! (3 + 1)) = Some (1/5) \<and>
      investment_amount (ex_mt_plan ! (3 + 1)) = Some 16 \<and>
      cash (ex_mt_plan ! (3 + 1)) = Some 64"
    unfolding pd c by auto
  from t have last: "drop_step ''markettiming_strategy'' 3 2 (length ex_mt - 1) (ex_mt_plan, 3)
      (length ex_mt - 1) = Inr (ex_mt_plan, 3)" by blast
  from t valid have tot: "\<exists>plan. create_drop_threshold_investment_plan ex_mt
      ''markettiming_strategy'' (1/20) (PyInt 3) (PyInt 2) = Inr plan \<and> length plan = length ex_mt"
    by blast
  show ?thesis using h1 h2 h3 ex_mt_eval pd vals last tot by simp
qed

text \<open>
  Claim C4. The planner runs on the series that CapitalAccrual produces (lines 283 and 284),
  where the available capital is defined on every record. For a series with distinct dates and
  every mode and parameter values with which the planner returns a plan, every record \<open>t\<close> of
  the plan has the available capital of CapitalAccrual, a defined \<open>investment_amount\<close> and
  \<open>cash = capital - (sum of investment_amount over the records up to and including t)\<close>; and
  every record with \<open>Open \<noteq> 0\<close> has \<open>share_amount * Open = investment_amount\<close>, with
  \<open>share_amount = 0\<close> whenever \<open>investment_amount = 0\<close>. The same holds for every plan that
  the end-to-end entry point returns.
\<close>

theorem planner_cash_and_share_invariant:
  assumes d: "distinct (map Date df)"
  shows "(determine_buy_and_investment_amount (assign_available_capital df ms) mode perc thr wd dm
        = Inr plan \<longrightarrow>
      length plan = length df \<and>
      (\<forall>t<length plan. \<exists>c a.
         capital (assign_available_capital df ms ! t) = Some c \<and> capital (plan ! t) = Some c \<and>
         investment_amount (plan ! t) = Some a \<and>
         cash (plan ! t) =
           Some (c - sum_list (map (\<lambda>r. fillna0 (investment_amount r)) (take (Suc t) plan))) \<and>
         (Open (plan ! t) \<noteq> 0 \<longrightarrow>
            (\<exists>s. share_amount (plan ! t) = Fin s \<and> s * Open (plan ! t) = a \<and>
               (a = 0 \<longrightarrow> s = 0))))) \<and>
    (create_investment_plan \<lparr>has_moving_max = hm, frame_rows = df\<rparr> start ys hl mode ms perc thr
        wd dm = Inr plan' \<longrightarrow>
      (\<forall>t<length plan'. \<exists>c a.
         capital (plan' ! t) = Some c \<and> investment_amount (plan' ! t) = Some a \<and>
         cash (plan' ! t) =
           Some (c - sum_list (map (\<lambda>r. fillna0 (investment_amount r)) (take (Suc t) plan'))) \<and>
         (Open (plan' ! t) \<noteq> 0 \<longrightarrow>
            (\<exists>s. share_amount (plan' ! t) = Fin s \<and> s * Open (plan' ! t) = a \<and>
               (a = 0 \<longrightarrow> s = 0)))))"
proof (intro conjI impI)
  assume r: "determine_buy_and_investment_amount (assign_available_capital df ms) mode perc thr wd dm
        = Inr plan"
  from planner_invariant_capitalized [OF d r]
  show "length plan = length df" by simp
  from planner_invariant_capitalized [OF d r]
  show "\<forall>t<length plan. \<exists>c a.
         capital (assign_available_capital df ms ! t) = Some c \<and> capital (plan ! t) = Some c \<and>
         investment_amount (plan ! t) = Some a \<and>
         cash (plan ! t) =
           Some (c - sum_list (map (\<lambda>r. fillna0 (investment_amount r)) (take (Suc t) plan))) \<and>
         (Open (plan ! t) \<noteq> 0 \<longrightarrow>
            (\<exists>s. share_amount (plan ! t) = Fin s \<and> s * Open (plan ! t) = a \<and>
               (a = 0 \<longrightarrow> s = 0)))" by simp
next
  assume e: "create_investment_plan \<lparr>has_moving_max = hm, frame_rows = df\<rparr> start ys hl mode ms
      perc thr wd dm = Inr plan'"
  from create_investment_plan_Inr_D [OF e] obtain hs he pdf where
    c: "compute_percent_drop (\<lparr>has_moving_max = hm, frame_rows = df\<rparr>
          \<lparr>frame_rows := slice_dates (frame_rows \<lparr>has_moving_max = hm, frame_rows = df\<rparr>) hs he\<rparr>)
        = Inr pdf" and
    r: "determine_buy_and_investment_amount (assign_available_capital pdf ms) mode perc thr wd dm
        = Inr plan'" by blast
  have dd: "distinct (map Date (frame_rows \<lparr>has_moving_max = hm, frame_rows = df\<rparr>))"
    using d by simp
  have dp: "distinct (map Date pdf)" using c dd by (rule pipeline_dates)
  from planner_invariant_capitalized [OF dp r]
  have "\<forall>t<length plan'. \<exists>c a.
         capital (assign_available_capital pdf ms ! t) = Some c \<and> capital (plan' ! t) = Some c \<and>
         investment_amount (plan' ! t) = Some a \<and>
         cash (plan' ! t) =
           Some (c - sum_list (map (\<lambda>r. fillna0 (investment_amount r)) (take (Suc t) plan'))) \<and>
         (Open (plan' ! t) \<noteq> 0 \<longrightarrow>
            (\<exists>s. share_amount (plan' ! t) = Fin s \<and> s * Open (plan' ! t) = a \<and>
               (a = 0 \<longrightarrow> s = 0)))" by simp
  then show "\<forall>t<length plan'. \<exists>c a.
         capital (plan' ! t) = Some c \<and> investment_amount (plan' ! t) = Some a \<and>
         cash (plan' ! t) =
           Some (c - sum_list (map (\<lambda>r. fillna0 (investment_amount r)) (take (Suc t) plan'))) \<and>
         (Open (plan' ! t) \<noteq> 0 \<longrightarrow>
            (\<exists>s. share_amount (plan' ! t) = Fin s \<and> s * Open (plan' ! t) = a \<and>
               (a = 0 \<longrightarrow> s = 0)))" by blast
qed

theorem planner_cash_and_share_invariant_witness:
  "distinct (map Date ex_series_drop) \<and>
   determine_buy_and_investment_amount (assign_available_capital ex_series_drop 100)
     ''markettiming_strategy'' (9/10) (7/200) (PyInt 3) (PyInt 9) = Inr (finalize ex_series_plan) \<and>
   (2::nat) < length (finalize ex_series_plan) \<and>
   capital (assign_available_capital ex_series_drop 100 ! 2) = Some 100 \<and>
   capital (finalize ex_series_plan ! 2) = Some 100 \<and>
   investment_amount (finalize ex_series_plan ! 2) = Some 90 \<and>
   sum_list (map (\<lambda>r. fillna0 (investment_amount r)) (take (Suc 2) (finalize ex_series_plan))) = 90 \<and>
   cash (finalize ex_series_plan ! 2) = Some (100 - 90) \<and>
   Open (finalize ex_series_plan ! 2) = 95 \<and>
   (\<exists>s. share_amount (finalize ex_series_plan ! 2) = Fin s \<and> s * 95 = 90) \<and>
   investment_amount (finalize ex_series_plan ! 1) = Some 0 \<and>
   share_amount (finalize ex_series_plan ! 1) = Fin 0 \<and>
   distinct (map Date ex_series) \<and>
   create_investment_plan \<lparr>has_moving_max = True, frame_rows = ex_series\<rparr> (2019, 1, 1) 1 1
     ''markettiming_strategy'' 100 (9/10) (7/200) (PyInt 3) (PyInt 9) = Inr (finalize ex_series_plan)"
proof -
  have d: "distinct (map Date ex_series_drop)" "distinct (map Date ex_series)"
    by (simp_all add: ex_series_drop_def ex_series_def an_row_def ex_row_def)
  have v: "capital (assign_available_capital ex_series_drop 100 ! 2) = Some 100"
    "capital (finalize ex_series_plan ! 2) = Some 100"
    "investment_amount (finalize ex_series_plan ! 2) = Some 90"
    "Open (finalize ex_series_plan ! 2) = 95"
    "sum_list (map (\<lambda>r. fillna0 (investment_amount r)) (take (Suc 2) (finalize ex_series_plan))) = 90"
    "(2::nat) < length (finalize ex_series_plan)"
    "investment_amount (finalize ex_series_plan ! 1) = Some 0"
    "Open (finalize ex_series_plan ! 1) = 90"
    "(1::nat) < length (finalize ex_series_plan)"
    by (simp_all add: ex_series_capital ex_series_cap_def ex_series_final an_row_def ex_row_def)
  note t = planner_cash_and_share_invariant [OF d(1), where ms = 100
      and mode = "''markettiming_strategy''" and perc = "9/10" and thr = "7/200"
      and wd = "PyInt 3" and dm = "PyInt 9" and plan = "finalize ex_series_plan"]
  from t ex_series_planner have rows: "\<forall>t<length (finalize ex_series_plan). \<exists>c a.
         capital (assign_available_capital ex_series_drop 100 ! t) = Some c \<and>
         capital (finalize ex_series_plan ! t) = Some c \<and>
         investment_amount (finalize ex_series_plan ! t) = Some a \<and>
         cash (finalize ex_series_plan ! t) =
           Some (c - sum_list (map (\<lambda>r. fillna0 (investment_amount r))
                     (take (Suc t) (finalize ex_series_plan)))) \<and>
         (Open (finalize ex_series_plan ! t) \<noteq> 0 \<longrightarrow>
            (\<exists>s. share_amount (finalize ex_series_plan ! t) = Fin s \<and>
               s * Open (finalize ex_series_plan ! t) = a \<and> (a = 0 \<longrightarrow> s = 0)))"
    by blast
  from rows [rule_format, OF v(6)] have r2: "cash (finalize ex_series_plan ! 2) = Some (100 - 90) \<and>
      (\<exists>s. share_amount (finalize ex_series_plan ! 2) = Fin s \<and> s * 95 = 90)"
    unfolding v(1,2,3,4,5) by auto
  from rows [rule_format, OF v(9)] have r1: "share_amount (finalize ex_series_plan ! 1) = Fin 0"
    unfolding v(7,8) by auto
  show ?thesis using d ex_series_planner v r2 r1 ex_series_eval by simp
qed




text \<open>
  Claim C6 as stated fails: under \<open>monthly_invest_strategy\<close> the drawdown leg, which holds the
  checks of the threshold, the waiting days and the multiplier, is not called, and the
  supplied monthly percentage is overridden before it is checked. With all four values
  invalid the planner returns the plan of the 3-record example.
\<close>

theorem planner_validation_counterexample:
  "determine_buy_and_investment_amount (assign_available_capital ex_three 100)
     ''monthly_invest_strategy'' (- 3) 5 (PyFloat 0) (PyInt 0) = Inr (finalize ex_three_monthly_plan)"
  by (rule ex_three_eval)

text \<open>
  Claim C6 (amended). The planner raises AssertionError (the source's form of an invalid
  parameter) and returns no plan: for an unknown mode, always; in hybrid mode for a monthly
  percentage outside [0, 1]; and, when the effective monthly percentage is in [0, 1] but not
  1.0 and the frame has a defined capital, for a threshold outside [0, 1] or a waiting-days or
  multiplier value that is not an int of at least 1. When the effective monthly percentage
  is 1.0 (pure monthly strategy) the threshold, the waiting days and the multiplier are not
  checked: the result does not depend on them. Outside hybrid mode the supplied monthly
  percentage is not checked either.
\<close>

theorem planner_validation:
  "(mode \<notin> set modes \<longrightarrow>
      determine_buy_and_investment_amount df mode perc thr wd dm = Inl AssertionError) \<and>
   (mode = ''hybrid_strategy'' \<and> \<not> (0 \<le> perc \<and> perc \<le> 1) \<longrightarrow>
      determine_buy_and_investment_amount df mode perc thr wd dm = Inl AssertionError) \<and>
   (mode \<in> set modes \<and> effective_percent mode perc \<noteq> 1 \<and>
    0 \<le> effective_percent mode perc \<and> effective_percent mode perc \<le> 1 \<and>
    first_capital df = Inr c0 \<and>
    \<not> (0 \<le> thr \<and> thr \<le> 1 \<and> 1 \<le> num_val wd \<and> is_int wd \<and> 1 \<le> num_val dm \<and> is_int dm) \<longrightarrow>
      determine_buy_and_investment_amount df mode perc thr wd dm = Inl AssertionError) \<and>
   (effective_percent mode perc = 1 \<longrightarrow>
      determine_buy_and_investment_amount df mode perc thr wd dm =
      determine_buy_and_investment_amount df mode perc thr' wd' dm') \<and>
   (mode \<noteq> ''hybrid_strategy'' \<longrightarrow>
      determine_buy_and_investment_amount df mode perc thr wd dm =
      determine_buy_and_investment_amount df mode perc' thr wd dm)"
proof -
  have A: "determine_buy_and_investment_amount df mode perc thr wd dm = Inl AssertionError"
    if "mode \<notin> set modes"
    using that by (simp add: determine_buy_and_investment_amount_def)
  have B: "determine_buy_and_investment_amount df mode perc thr wd dm = Inl AssertionError"
    if "mode = ''hybrid_strategy'' \<and> \<not> (0 \<le> perc \<and> perc \<le> 1)"
  proof -
    have "create_monthly_investment_plan df perc = Inl AssertionError"
      using that by (simp add: create_monthly_investment_plan_def)
    then show ?thesis
      using that by (auto simp: determine_buy_and_investment_amount_def modes_def
          effective_percent_def)
  qed
  have C: "determine_buy_and_investment_amount df mode perc thr wd dm = Inl AssertionError"
    if h: "mode \<in> set modes \<and> effective_percent mode perc \<noteq> 1 \<and>
      0 \<le> effective_percent mode perc \<and> effective_percent mode perc \<le> 1 \<and>
      first_capital df = Inr c0 \<and>
      \<not> (0 \<le> thr \<and> thr \<le> 1 \<and> 1 \<le> num_val wd \<and> is_int wd \<and> 1 \<le> num_val dm \<and> is_int dm)"
  proof -
    from h create_monthly_Inr_I [of "effective_percent mode perc" df c0] obtain mp where
      mp: "create_monthly_investment_plan df (effective_percent mode perc) = Inr mp" by blast
    have "create_drop_threshold_investment_plan mp mode thr wd dm = Inl AssertionError"
      using h by (intro create_drop_invalid) blast
    then show ?thesis
      using h mp by (simp add: determine_buy_and_investment_amount_def Let_def)
  qed
  have D: "determine_buy_and_investment_amount df mode perc thr wd dm =
      determine_buy_and_investment_amount df mode perc thr' wd' dm'"
    if "effective_percent mode perc = 1"
    using that by (simp add: determine_buy_and_investment_amount_def Let_def)
  have E: "determine_buy_and_investment_amount df mode perc thr wd dm =
      determine_buy_and_investment_amount df mode perc' thr wd dm"
    if "mode \<noteq> ''hybrid_strategy''"
  proof (cases "mode \<in> set modes")
    case True
    with that have "effective_percent mode perc = effective_percent mode perc'"
      by (auto simp: effective_percent_def modes_def)
    then show ?thesis by (simp add: determine_buy_and_investment_amount_def Let_def)
  next
    case False
    then show ?thesis by (simp add: determine_buy_and_investment_amount_def)
  qed
  show ?thesis using A B C D E by blast
qed

theorem planner_validation_witness:
  "''buy_and_hold'' \<notin> set modes \<and>
   determine_buy_and_investment_amount ex_hybrid ''buy_and_hold'' (1/2) (1/20) (PyInt 1) (PyInt 2)
     = Inl AssertionError \<and>
   \<not> (0 \<le> (3/2 :: real) \<and> (3/2 :: real) \<le> 1) \<and>
   determine_buy_and_investment_amount ex_hybrid ''hybrid_strategy'' (3/2) (1/20) (PyInt 1) (PyInt 2)
     = Inl AssertionError \<and>
   ''hybrid_strategy'' \<in> set modes \<and> effective_percent ''hybrid_strategy'' (1/2) = 1/2 \<and>
   first_capital ex_hybrid = Inr 100 \<and>
   \<not> (0 \<le> (1/20 :: real) \<and> (1/20 :: real) \<le> 1 \<and> 1 \<le> num_val (PyFloat 3) \<and> is_int (PyFloat 3) \<and>
      1 \<le> num_val (PyInt 2) \<and> is_int (PyInt 2)) \<and>
   determine_buy_and_investment_amount ex_hybrid ''hybrid_strategy'' (1/2) (1/20) (PyFloat 3) (PyInt 2)
     = Inl AssertionError \<and>
   effective_percent ''monthly_invest_strategy'' (- 3) = 1 \<and>
   determine_buy_and_investment_amount (assign_available_capital ex_three 100)
     ''monthly_invest_strategy'' (- 3) (1/20) (PyInt 3) (PyInt 9) = Inr (finalize ex_three_monthly_plan)"
proof -
  have m: "''buy_and_hold'' \<notin> set modes" "''hybrid_strategy'' \<in> set modes"
    by (simp_all add: modes_def)
  have e: "effective_percent ''hybrid_strategy'' (1/2) = 1/2"
    "effective_percent ''monthly_invest_strategy'' (- 3) = 1"
    by (simp_all add: effective_percent_def)
  have c: "first_capital ex_hybrid = Inr 100" by (simp add: first_capital_def ex_hybrid_def ex_row_def)
  have w1: "determine_buy_and_investment_amount ex_hybrid ''buy_and_hold'' (1/2) (1/20) (PyInt 1)
      (PyInt 2) = Inl AssertionError"
    using planner_validation [where mode = "''buy_and_hold''" and df = ex_hybrid and perc = "1/2"
        and thr = "1/20" and wd = "PyInt 1" and dm = "PyInt 2"] m
    by blast
  have w2: "determine_buy_and_investment_amount ex_hybrid ''hybrid_strategy'' (3/2) (1/20) (PyInt 1)
      (PyInt 2) = Inl AssertionError"
    using planner_validation [where mode = "''hybrid_strategy''" and df = ex_hybrid and perc = "3/2"
        and thr = "1/20" and wd = "PyInt 1" and dm = "PyInt 2"]
    by simp
  have w3: "determine_buy_and_investment_amount ex_hybrid ''hybrid_strategy'' (1/2) (1/20)
      (PyFloat 3) (PyInt 2) = Inl AssertionError"
    using planner_validation [where mode = "''hybrid_strategy''" and df = ex_hybrid and perc = "1/2"
        and thr = "1/20" and wd = "PyFloat 3" and dm = "PyInt 2" and ?c0.0 = 100]
      m e c by simp
  have w4: "determine_buy_and_investment_amount (assign_available_capital ex_three 100)
     ''monthly_invest_strategy'' (- 3) (1/20) (PyInt 3) (PyInt 9) = Inr (finalize ex_three_monthly_plan)"
    using planner_validation [where mode = "''monthly_invest_strategy''" and perc = "- 3"
        and df = "assign_available_capital ex_three 100" and thr = "1/20" and wd = "PyInt 3"
        and dm = "PyInt 9" and thr' = 5 and wd' = "PyFloat 0" and dm' = "PyInt 0"]
      e ex_three_eval [of "- 3" 5 "PyFloat 0" "PyInt 0"] by simp
  show ?thesis using m e c w1 w2 w3 w4 by simp
qed

text \<open>
  Claim C7 as stated fails: the function checks nothing. A negative offset and a negative
  horizon length shift the dates backward and the two dates are returned.
\<close>

theorem horizon_negative_counterexample:
  "get_horizon_start_end (2000, 1, 1) (- 1) 20 = Inr ((1999, 1, 1), (2019, 1, 1)) \<and>
   get_horizon_start_end (2000, 1, 1) 0 (- 5) = Inr ((2000, 1, 1), (1995, 1, 1))"
  by (simp add: get_horizon_start_end_def days_in_month_def)

text \<open>
  Claim C7 (amended). For every start date and all integers \<open>year_start\<close> and
  \<open>horizon_length\<close>, negative ones included, the function returns the start date shifted by
  \<open>year_start\<close> years and that date shifted by \<open>horizon_length\<close> years (the day cut to the
  length of the month), and it raises only the ValueError of the date arithmetic, when a
  shifted year leaves 1..9999. The end of the series is not an input and is never checked.
\<close>

theorem horizon_is_shifted_dates:
  "get_horizon_start_end (y, m, d) a b =
     (if 1 \<le> y + a \<and> y + a \<le> 9999 \<and> 1 \<le> y + a + b \<and> y + a + b \<le> 9999
      then Inr ((y + a, m, min (days_in_month (y + a) m) d),
                (y + a + b, m, min (days_in_month (y + a + b) m) (min (days_in_month (y + a) m) d)))
      else Inl ValueError)"
  by (auto simp: get_horizon_start_end_def Let_def)

theorem horizon_is_shifted_dates_witness:
  "get_horizon_start_end (2000, 2, 29) 1 20 = Inr ((2001, 2, 28), (2021, 2, 28)) \<and>
   get_horizon_start_end (2000, 2, 29) (- 2000) 20 = Inl ValueError"
  using horizon_is_shifted_dates [of 2000 2 29 1 20]
    horizon_is_shifted_dates [of 2000 2 29 "- 2000" 20]
  by (simp add: days_in_month_def isleap_def)

text \<open>
  Claim C8. Under \<open>monthly_invest_strategy\<close> (the monthly percentage is forced to 1.0 and the
  drawdown leg does not run), on a frame with distinct dates and some defined capital the
  planner returns a plan in which \<open>buy\<close> holds exactly on the first row of every
  (year, month) group, each of them investing the first capital, and on no other row. In the
  3-record example with opens 100, 101, 102 in one month and monthly savings 100, the first
  record has \<open>buy\<close>, \<open>investment_amount = 100\<close>, \<open>share_amount = 1\<close> and \<open>cash = 0\<close>, the other two
  have no buy and \<open>investment_amount = 0\<close>.
\<close>

theorem monthly_strategy_buys_on_month_firsts:
  "(distinct (map Date df) \<and> first_capital df = Inr c0 \<longrightarrow>
      (\<exists>plan. determine_buy_and_investment_amount df ''monthly_invest_strategy'' perc thr wd dm
            = Inr plan \<and> length plan = length df \<and>
          (\<forall>t<length df. buy (plan ! t) = month_first df t \<and>
             investment_amount (plan ! t) = Some (if month_first df t then c0 else 0)))) \<and>
   (\<exists>plan. determine_buy_and_investment_amount (assign_available_capital ex_three 100)
        ''monthly_invest_strategy'' perc thr wd dm = Inr plan \<and>
      map Open plan = [100, 101, 102] \<and>
      map buy plan = [True, False, False] \<and>
      map investment_amount plan = [Some 100, Some 0, Some 0] \<and>
      share_amount (plan ! 0) = Fin 1 \<and> cash (plan ! 0) = Some 0)"
proof -
  have A: "\<exists>plan. determine_buy_and_investment_amount df ''monthly_invest_strategy'' perc thr wd dm
            = Inr plan \<and> length plan = length df \<and>
          (\<forall>t<length df. buy (plan ! t) = month_first df t \<and>
             investment_amount (plan ! t) = Some (if month_first df t then c0 else 0))"
    if "distinct (map Date df) \<and> first_capital df = Inr c0"
    using that monthly_strategy_plan [of df c0 perc thr wd dm] by simp
  have B: "\<exists>plan. determine_buy_and_investment_amount (assign_available_capital ex_three 100)
        ''monthly_invest_strategy'' perc thr wd dm = Inr plan \<and>
      map Open plan = [100, 101, 102] \<and>
      map buy plan = [True, False, False] \<and>
      map investment_amount plan = [Some 100, Some 0, Some 0] \<and>
      share_amount (plan ! 0) = Fin 1 \<and> cash (plan ! 0) = Some 0"
    using ex_three_eval [of perc thr wd dm] ex_three_fields by simp
  show ?thesis using A B by (intro conjI impI)
qed

theorem monthly_strategy_buys_on_month_firsts_witness:
  "distinct (map Date ex_hybrid) \<and> first_capital ex_hybrid = Inr 100 \<and>
   \<not> month_first ex_hybrid 1 \<and> month_first ex_hybrid 2 \<and>
   (\<exists>plan. determine_buy_and_investment_amount ex_hybrid ''monthly_invest_strategy'' (1/2) 5
        (PyFloat 0) (PyFloat 0) = Inr plan \<and> length plan = 4 \<and>
      \<not> buy (plan ! 1) \<and> investment_amount (plan ! 1) = Some 0 \<and>
      buy (plan ! 2) \<and> investment_amount (plan ! 2) = Some 100)"
proof -
  have d: "distinct (map Date ex_hybrid)" by (simp add: ex_hybrid_def ex_row_def)
  have c: "first_capital ex_hybrid = Inr 100" by (simp add: first_capital_def ex_hybrid_def ex_row_def)
  have mf: "\<not> month_first ex_hybrid 1" "month_first ex_hybrid 2"
    by (simp_all add: month_first_def ex_hybrid_def ex_row_def)
  have l: "length ex_hybrid = 4" by (simp add: ex_hybrid_def)
  from monthly_strategy_buys_on_month_firsts [of ex_hybrid 100 "1/2" 5 "PyFloat 0" "PyFloat 0"] d c
  obtain plan where p: "determine_buy_and_investment_amount ex_hybrid ''monthly_invest_strategy''
      (1/2) 5 (PyFloat 0) (PyFloat 0) = Inr plan" "length plan = length ex_hybrid"
    and rows: "\<forall>t<length ex_hybrid. buy (plan ! t) = month_first ex_hybrid t \<and>
             investment_amount (plan ! t) = Some (if month_first ex_hybrid t then 100 else 0)"
    by blast
  have r1: "\<not> buy (plan ! 1) \<and> investment_amount (plan ! 1) = Some 0"
    using rows [rule_format, of 1] mf l by simp
  have r2: "buy (plan ! 2) \<and> investment_amount (plan ! 2) = Some 100"
    using rows [rule_format, of 2] mf l by simp
  from p r1 r2 l have "\<exists>plan. determine_buy_and_investment_amount ex_hybrid
        ''monthly_invest_strategy'' (1/2) 5 (PyFloat 0) (PyFloat 0) = Inr plan \<and> length plan = 4 \<and>
      \<not> buy (plan ! 1) \<and> investment_amount (plan ! 1) = Some 0 \<and>
      buy (plan ! 2) \<and> investment_amount (plan ! 2) = Some 100"
    by auto
  with d c mf show ?thesis by simp
qed

text \<open>
  Claim C9. For a plan in chronological order (its years ascending) and every year \<open>y\<close> in
  it, the evaluator returns: \<open>invested = sum of investment_amount over the records up to the
  end of y\<close> (a null amount counting as 0), \<open>portfolio = (sum of share_amount over the records
  up to the end of y) * (Open of the last record of y)\<close>, \<open>gain = portfolio - invested\<close> and
  \<open>roi = gain / invested\<close>. The sum of the shares skips null cells and keeps infinite ones (a
  buy at an open price of 0); the equation for the portfolio needs this sum to be defined,
  that is, the shares up to the end of \<open>y\<close> do not hold both \<open>+inf\<close> and \<open>-inf\<close>. In particular
  \<open>invested = 1000\<close> and \<open>portfolio = 1200\<close> give \<open>gain = 200\<close> and \<open>roi = 1/5\<close>, and with
  \<open>invested = 0\<close> the \<open>roi\<close> is an infinity or NaN, never a finite number.
\<close>

theorem compute_roi_per_year:
  assumes s: "sorted (map year plan)"
    and r: "compute_roi plan = (portfolio, invested, win, roi)"
    and k: "k < length (group_years plan)"
  shows "invested ! k =
      Fin (sum_list (map (\<lambda>r. fillna0 (investment_amount r))
             (filter (\<lambda>r. year r \<le> group_years plan ! k) plan))) \<and>
    (xsum (map share_amount (filter (\<lambda>r. year r \<le> group_years plan ! k) plan)) \<noteq> NaN \<longrightarrow>
       portfolio ! k =
         xmul (xsum (map share_amount (filter (\<lambda>r. year r \<le> group_years plan ! k) plan)))
              (Fin (Open (last (filter (\<lambda>r. year r = group_years plan ! k) plan))))) \<and>
    win ! k = xsub (portfolio ! k) (invested ! k) \<and>
    roi ! k = xdiv (win ! k) (invested ! k) \<and>
    (invested ! k = Fin 1000 \<and> portfolio ! k = Fin 1200 \<longrightarrow>
       win ! k = Fin 200 \<and> roi ! k = Fin (1/5)) \<and>
    (invested ! k = Fin 0 \<longrightarrow> (\<forall>x. roi ! k \<noteq> Fin x))"
proof -
  let ?ys = "group_years plan"
  let ?le = "filter (\<lambda>r. year r \<le> ?ys ! k) plan"
  let ?sh = "xcumsum (Fin 0) (map (group_sum share_amount plan) ?ys)"
  let ?inv = "xcumsum (Fin 0) (map (group_sum (\<lambda>r. as_float (investment_amount r)) plan) ?ys)"
  have lt: "length (group_tails plan) = length ?ys"
    by (simp add: group_tails_last group_years_def)
  have tail: "group_tails plan ! k = Open (last (filter (\<lambda>r. year r = ?ys ! k) plan))"
    using k by (simp add: group_tails_last group_years_sorted [OF s])
  have fin: "xsum (map (\<lambda>r. as_float (investment_amount r)) ?le) =
      Fin (sum_list (map (\<lambda>r. fillna0 (investment_amount r)) ?le))"
    by (rule xsum_as_float)
  have inv: "?inv ! k = Fin (sum_list (map (\<lambda>r. fillna0 (investment_amount r)) ?le))"
    using cumulative_group_sum [OF k, of "\<lambda>r. as_float (investment_amount r)"] fin by simp
  have sh: "?sh ! k = xsum (map share_amount ?le)" if "xsum (map share_amount ?le) \<noteq> NaN"
    using k that by (rule cumulative_group_sum)
  have p: "portfolio = map (\<lambda>(s, p). xmul s (Fin p)) (zip ?sh (group_tails plan))"
    and i: "invested = ?inv"
    and w: "win = map (\<lambda>(p, a). xsub p a) (zip portfolio invested)"
    and ro: "roi = map (\<lambda>(w, a). xdiv w a) (zip win invested)"
    using r by (auto simp: compute_roi_def Let_def)
  have lp: "k < length portfolio" "k < length invested" "k < length win"
    using compute_roi_lengths [OF r] k by simp_all
  have P: "portfolio ! k = xmul (?sh ! k) (Fin (group_tails plan ! k))"
    unfolding p using k lt by simp
  have W: "win ! k = xsub (portfolio ! k) (invested ! k)"
    using lp by (subst w) simp
  have R: "roi ! k = xdiv (win ! k) (invested ! k)"
    using lp by (subst ro) simp
  have E: "win ! k = Fin 200 \<and> roi ! k = Fin (1/5)"
    if "invested ! k = Fin 1000 \<and> portfolio ! k = Fin 1200"
    using that W R by (simp add: xsub_def)
  have Z: "\<forall>x. roi ! k \<noteq> Fin x" if "invested ! k = Fin 0"
    using that R xdiv_zero_not_finite by simp
  have I: "invested ! k = Fin (sum_list (map (\<lambda>r. fillna0 (investment_amount r)) ?le))"
    using i inv by simp
  have PP: "portfolio ! k = xmul (xsum (map share_amount ?le))
        (Fin (Open (last (filter (\<lambda>r. year r = ?ys ! k) plan))))"
    if "xsum (map share_amount ?le) \<noteq> NaN"
    using P sh [OF that] tail by simp
  show ?thesis using I PP W R E Z by blast
qed

theorem compute_roi_per_year_witness:
  "sorted (map year ex_roi) \<and>
   compute_roi ex_roi =
     ([Fin 360, Fin 1200], [Fin 400, Fin 1000], [Fin (- 40), Fin 200],
      [Fin (- (1/10)), Fin (1/5)]) \<and>
   (1::nat) < length (group_years ex_roi) \<and> group_years ex_roi ! 1 = 2020 \<and>
   xsum (map share_amount (filter (\<lambda>r. year r \<le> 2020) ex_roi)) = Fin 12 \<and>
   Open (last (filter (\<lambda>r. year r = 2020) ex_roi)) = 100 \<and>
   sum_list (map (\<lambda>r. fillna0 (investment_amount r)) (filter (\<lambda>r. year r \<le> 2020) ex_roi)) = 1000 \<and>
   [Fin 400, Fin 1000] ! 1 = Fin 1000 \<and>
   [Fin 360, Fin 1200] ! 1 = xmul (Fin 12) (Fin 100) \<and>
   [Fin (- 40), Fin 200] ! 1 = xsub (Fin 1200) (Fin 1000) \<and>
   [Fin (- (1/10)), Fin (1/5)] ! 1 = xdiv (Fin 200) (Fin 1000) \<and>
   sorted (map year (finalize ex_zero_open)) \<and>
   compute_roi (finalize ex_zero_open) = ([PInf], [Fin 100], [PInf], [PInf]) \<and>
   xsum (map share_amount (filter (\<lambda>r. year r \<le> 2020) (finalize ex_zero_open))) = PInf \<and>
   Open (last (filter (\<lambda>r. year r = 2020) (finalize ex_zero_open))) = 50 \<and>
   [PInf] ! 0 = xmul PInf (Fin 50)"
proof -
  have s: "sorted (map year ex_roi)" by (simp add: ex_roi_def ex_row_def)
  have k: "(1::nat) < length (group_years ex_roi)" by (simp add: ex_roi_years)
  have y: "group_years ex_roi ! 1 = 2020" by (simp add: ex_roi_years)
  have v: "xsum (map share_amount (filter (\<lambda>r. year r \<le> 2020) ex_roi)) = Fin 12"
    "Open (last (filter (\<lambda>r. year r = 2020) ex_roi)) = 100"
    "sum_list (map (\<lambda>r. fillna0 (investment_amount r)) (filter (\<lambda>r. year r \<le> 2020) ex_roi)) = 1000"
    by (simp_all add: ex_roi_def ex_row_def)
  note t = compute_roi_per_year [OF s ex_roi_eval k]
  from t have a: "[Fin 400, Fin 1000] ! 1 = Fin 1000 \<and>
     [Fin 360, Fin 1200] ! 1 = xmul (Fin 12) (Fin 100) \<and>
     [Fin (- 40), Fin 200] ! 1 = xsub (Fin 1200) (Fin 1000) \<and>
     [Fin (- (1/10)), Fin (1/5)] ! 1 = xdiv (Fin 200) (Fin 1000)"
    unfolding y v by (simp add: xsub_def)
  have s0: "sorted (map year (finalize ex_zero_open))" by (simp add: ex_zero_open_plan ex_row_def)
  have k0: "(0::nat) < length (group_years (finalize ex_zero_open))" by (simp add: ex_zero_open_years)
  have y0: "group_years (finalize ex_zero_open) ! 0 = 2020" by (simp add: ex_zero_open_years)
  have v0: "xsum (map share_amount (filter (\<lambda>r. year r \<le> 2020) (finalize ex_zero_open))) = PInf"
    "Open (last (filter (\<lambda>r. year r = 2020) (finalize ex_zero_open))) = 50"
    by (simp_all add: ex_zero_open_plan ex_row_def)
  note t0 = compute_roi_per_year [OF s0 ex_zero_open_eval k0]
  from t0 have b: "[PInf] ! 0 = xmul PInf (Fin 50)"
    unfolding y0 v0 by simp
  show ?thesis using s ex_roi_eval k y v a s0 ex_zero_open_eval v0 b by (simp add: xsub_def)
qed

text \<open>
  Claim C10. The end-to-end entry point does not compute the moving maximum. Whenever it
  returns a plan, the input series has the column \<open>moving_max\<close>, every record of the plan
  carries the \<open>moving_max\<close> (and the date, high and adjusted close) of a record of the input
  series, and its \<open>percent_drop\<close> is \<open>1 - Adj_Close / moving_max\<close> of that input value (NaN
  where the value is null). On a series that the caller has not annotated, which has no
  column \<open>moving_max\<close>, no \<open>percent_drop\<close> is computed and no leg of the planner runs: the
  attribute access of line 97 raises AttributeError, in every mode and with all parameter
  values, unless the date arithmetic of the horizon has failed before it. No plan is
  returned.
\<close>

theorem plan_uses_the_given_moving_max:
  "(create_investment_plan df start ys hl mode ms perc thr wd dm = Inr plan \<longrightarrow>
      has_moving_max df \<and>
      (\<forall>r\<in>set plan.
         percent_drop r = xsub (Fin 1) (xdiv (Fin (Adj_Close r)) (as_float (moving_max r))) \<and>
         (moving_max r = None \<longrightarrow> percent_drop r = NaN) \<and>
         (\<exists>r0\<in>set (frame_rows df). Date r0 = Date r \<and> High r0 = High r \<and>
            Adj_Close r0 = Adj_Close r \<and> moving_max r0 = moving_max r))) \<and>
   (\<not> has_moving_max df \<longrightarrow>
      create_investment_plan df start ys hl mode ms perc thr wd dm =
        (case get_horizon_start_end start ys hl of
           Inl e \<Rightarrow> Inl e
         | Inr h \<Rightarrow> Inl AttributeError) \<and>
      (\<forall>p. create_investment_plan df start ys hl mode ms perc thr wd dm \<noteq> Inr p))"
proof (intro conjI impI)
  assume r: "create_investment_plan df start ys hl mode ms perc thr wd dm = Inr plan"
  show "has_moving_max df"
  proof (rule ccontr)
    assume "\<not> has_moving_max df"
    from create_investment_plan_no_column [OF this, of start ys hl mode ms perc thr wd dm] r
    show False by (auto split: sum.splits)
  qed
  show "\<forall>r\<in>set plan.
         percent_drop r = xsub (Fin 1) (xdiv (Fin (Adj_Close r)) (as_float (moving_max r))) \<and>
         (moving_max r = None \<longrightarrow> percent_drop r = NaN) \<and>
         (\<exists>r0\<in>set (frame_rows df). Date r0 = Date r \<and> High r0 = High r \<and>
            Adj_Close r0 = Adj_Close r \<and> moving_max r0 = moving_max r)"
  proof
    fix x assume x: "x \<in> set plan"
    from core_pipeline [OF r x] obtain r0 where r0: "r0 \<in> set (frame_rows df)"
      "Date r0 = Date x" "High r0 = High x" "Adj_Close r0 = Adj_Close x"
      "moving_max r0 = moving_max x"
      "percent_drop x = xsub (Fin 1) (xdiv (Fin (Adj_Close r0)) (as_float (moving_max r0)))"
      by blast
    have pd: "percent_drop x = xsub (Fin 1) (xdiv (Fin (Adj_Close x)) (as_float (moving_max x)))"
      using r0 by simp
    have "moving_max x = None \<longrightarrow> percent_drop x = NaN" using pd by (simp add: xsub_def)
    then show "percent_drop x = xsub (Fin 1) (xdiv (Fin (Adj_Close x)) (as_float (moving_max x))) \<and>
         (moving_max x = None \<longrightarrow> percent_drop x = NaN) \<and>
         (\<exists>r0\<in>set (frame_rows df). Date r0 = Date x \<and> High r0 = High x \<and>
            Adj_Close r0 = Adj_Close x \<and> moving_max r0 = moving_max x)"
      using pd r0 by blast
  qed
next
  assume n: "\<not> has_moving_max df"
  from create_investment_plan_no_column [OF n]
  show "create_investment_plan df start ys hl mode ms perc thr wd dm =
        (case get_horizon_start_end start ys hl of
           Inl e \<Rightarrow> Inl e
         | Inr h \<Rightarrow> Inl AttributeError)" .
  from create_investment_plan_no_column [OF n, of start ys hl mode ms perc thr wd dm]
  show "\<forall>p. create_investment_plan df start ys hl mode ms perc thr wd dm \<noteq> Inr p"
    by (auto split: sum.splits)
qed

theorem plan_uses_the_given_moving_max_witness:
  "create_investment_plan \<lparr>has_moving_max = True, frame_rows = ex_series\<rparr> (2019, 1, 1) 1 1
     ''markettiming_strategy'' 100 (9/10) (7/200) (PyInt 3) (PyInt 9) = Inr (finalize ex_series_plan) \<and>
   map moving_max ex_series = [Some 100, Some 100, Some 95] \<and>
   map Adj_Close ex_series = [100, 90, 95] \<and>
   map moving_max (finalize ex_series_plan) = [Some 100, Some 100, Some 95] \<and>
   map Adj_Close (finalize ex_series_plan) = [100, 90, 95] \<and>
   map percent_drop (finalize ex_series_plan) = [Fin 0, Fin (1/10), Fin 0] \<and>
   percent_drop (finalize ex_series_plan ! 1) = xsub (Fin 1) (xdiv (Fin 90) (Fin 100)) \<and>
   \<not> has_moving_max \<lparr>has_moving_max = False, frame_rows = ex_three\<rparr> \<and>
   get_horizon_start_end (2019, 1, 1) 1 1 = Inr ((2020, 1, 1), (2021, 1, 1)) \<and>
   create_investment_plan \<lparr>has_moving_max = False, frame_rows = ex_three\<rparr> (2019, 1, 1) 1 1
     ''markettiming_strategy'' 100 (9/10) (7/200) (PyInt 3) (PyInt 9) = Inl AttributeError \<and>
   create_investment_plan \<lparr>has_moving_max = False, frame_rows = ex_three\<rparr> (2019, 1, 1) 1 1
     ''monthly_invest_strategy'' 100 1 (7/200) (PyInt 3) (PyInt 9) = Inl AttributeError"
proof -
  have v: "map moving_max ex_series = [Some 100, Some 100, Some 95]"
    "map Adj_Close ex_series = [100, 90, 95]"
    "map moving_max (finalize ex_series_plan) = [Some 100, Some 100, Some 95]"
    "map Adj_Close (finalize ex_series_plan) = [100, 90, 95]"
    "map percent_drop (finalize ex_series_plan) = [Fin 0, Fin (1/10), Fin 0]"
    by (simp_all add: ex_series_def ex_series_final an_row_def ex_row_def)
  have m: "finalize ex_series_plan ! 1 \<in> set (finalize ex_series_plan)"
    by (simp add: ex_series_final)
  have f: "Adj_Close (finalize ex_series_plan ! 1) = 90"
    "moving_max (finalize ex_series_plan ! 1) = Some 100"
    by (simp_all add: ex_series_final an_row_def ex_row_def)
  from plan_uses_the_given_moving_max [where df = "\<lparr>has_moving_max = True, frame_rows = ex_series\<rparr>"
      and start = "(2019, 1, 1)" and ys = 1 and hl = 1 and mode = "''markettiming_strategy''"
      and ms = 100 and perc = "9/10" and thr = "7/200" and wd = "PyInt 3" and dm = "PyInt 9"
      and plan = "finalize ex_series_plan"] ex_series_eval m
  have a: "percent_drop (finalize ex_series_plan ! 1) =
      xsub (Fin 1) (xdiv (Fin (Adj_Close (finalize ex_series_plan ! 1)))
        (as_float (moving_max (finalize ex_series_plan ! 1))))"
    by blast
  then have a': "percent_drop (finalize ex_series_plan ! 1) = xsub (Fin 1) (xdiv (Fin 90) (Fin 100))"
    unfolding f by simp
  have n: "\<not> has_moving_max \<lparr>has_moving_max = False, frame_rows = ex_three\<rparr>" by simp
  from plan_uses_the_given_moving_max [where df = "\<lparr>has_moving_max = False, frame_rows = ex_three\<rparr>"
      and start = "(2019, 1, 1)" and ys = 1 and hl = 1 and mode = "''markettiming_strategy''"
      and ms = 100 and perc = "9/10" and thr = "7/200" and wd = "PyInt 3" and dm = "PyInt 9"] n
  have b: "create_investment_plan \<lparr>has_moving_max = False, frame_rows = ex_three\<rparr> (2019, 1, 1) 1 1
     ''markettiming_strategy'' 100 (9/10) (7/200) (PyInt 3) (PyInt 9) = Inl AttributeError"
    by (simp add: ex_series_horizon)
  from plan_uses_the_given_moving_max [where df = "\<lparr>has_moving_max = False, frame_rows = ex_three\<rparr>"
      and start = "(2019, 1, 1)" and ys = 1 and hl = 1 and mode = "''monthly_invest_strategy''"
      and ms = 100 and perc = 1 and thr = "7/200" and wd = "PyInt 3" and dm = "PyInt 9"] n
  have c: "create_investment_plan \<lparr>has_moving_max = False, frame_rows = ex_three\<rparr> (2019, 1, 1) 1 1
     ''monthly_invest_strategy'' 100 1 (7/200) (PyInt 3) (PyInt 9) = Inl AttributeError"
    by (simp add: ex_series_horizon)
  show ?thesis using ex_series_eval v a' n ex_series_horizon b c by simp
qed

end
